theory Spec2Isabelle
  imports Complex_Main
begin

section \<open>Feature flags of the orchestrator (core.py, \<open>_set_feature_flags\<close>)\<close>











section \<open>MTU discovery (network/utils.py)\<close>

text \<open>
  Python's \<open>needle in haystack\<close> on strings.
\<close>

fun starts_with :: "string \<Rightarrow> string \<Rightarrow> bool" where
  "starts_with [] s = True"
| "starts_with (p # ps) [] = False"
| "starts_with (p # ps) (c # cs) = (p = c \<and> starts_with ps cs)"

fun str_in :: "string \<Rightarrow> string \<Rightarrow> bool" where
  "str_in needle [] = (needle = [])"
| "str_in needle (c # cs) = (starts_with needle (c # cs) \<or> str_in needle cs)"

text \<open>
  \<open>run_command\<close> catches every exception and then returns \<open>None\<close> for stdout, so a
  probe is a function from the payload size handed to ping (\<open>test_mtu - 28\<close>) to the
  stdout it produced, if any. The two platform functions differ only in the texts that
  classify a probe as failed; an empty or missing stdout never does.
\<close>

type_synonym probe = "int \<Rightarrow> string option"

definition windows_probe_failed :: "string option \<Rightarrow> bool" where
  "windows_probe_failed out =
     (case out of
        None \<Rightarrow> False
      | Some s \<Rightarrow> s \<noteq> [] \<and>
          (str_in ''Packet needs to be fragmented'' s \<or> str_in ''100% loss'' s))"

definition linux_probe_failed :: "string option \<Rightarrow> bool" where
  "linux_probe_failed out =
     (case out of
        None \<Rightarrow> False
      | Some s \<Rightarrow> s \<noteq> [] \<and>
          (str_in ''Frag needed'' s \<or> str_in ''Message too long'' s
           \<or> str_in ''100% packet loss'' s))"

text \<open>
  The state of the \<open>while max_mtu - min_mtu > 8\<close> loop. \<open>probed\<close> is not a variable of
  the source: it logs the \<open>test_mtu\<close> of every probe sent, in order.
\<close>

record mtu_state =
  max_mtu :: int
  min_mtu :: int
  optimal_mtu :: int
  probed :: "int list"

text \<open>One pass through the loop body; \<open>too_large\<close> is the classification of the probe.\<close>

definition mtu_probe_step :: "(int \<Rightarrow> bool) \<Rightarrow> mtu_state \<Rightarrow> mtu_state" where
  "mtu_probe_step too_large st =
     (let test_mtu = (max_mtu st + min_mtu st) div 2 in
      if too_large (test_mtu - 28)
      then st\<lparr>max_mtu := test_mtu, probed := probed st @ [test_mtu]\<rparr>
      else st\<lparr>min_mtu := test_mtu, optimal_mtu := test_mtu,
               probed := probed st @ [test_mtu]\<rparr>)"

function mtu_search :: "(int \<Rightarrow> bool) \<Rightarrow> mtu_state \<Rightarrow> mtu_state" where
  "mtu_search too_large st =
     (if max_mtu st - min_mtu st > 8 then mtu_search too_large (mtu_probe_step too_large st)
      else st)"
  by pat_completeness auto
termination
  by (relation "measure (\<lambda>(f, st). nat (max_mtu st - min_mtu st))")
     (auto simp: mtu_probe_step_def Let_def)

declare mtu_search.simps [simp del]

definition mtu_init :: mtu_state where
  "mtu_init = \<lparr>max_mtu = 1500, min_mtu = 1200, optimal_mtu = 1500, probed = []\<rparr>"

definition windows_search :: "probe \<Rightarrow> mtu_state" where
  "windows_search run_ping = mtu_search (\<lambda>payload. windows_probe_failed (run_ping payload)) mtu_init"

definition find_windows_optimal_mtu :: "probe \<Rightarrow> int" where
  "find_windows_optimal_mtu run_ping = optimal_mtu (windows_search run_ping)"

definition linux_search :: "probe \<Rightarrow> mtu_state" where
  "linux_search run_ping = mtu_search (\<lambda>payload. linux_probe_failed (run_ping payload)) mtu_init"

definition find_linux_optimal_mtu :: "probe \<Rightarrow> int" where
  "find_linux_optimal_mtu run_ping = optimal_mtu (linux_search run_ping)"

text \<open>
  A synthetic path whose largest deliverable packet is \<open>limit\<close> bytes: a probe of
  \<open>payload\<close> bytes travels as a packet of \<open>payload + 28\<close> bytes.
\<close>

definition synthetic_windows :: "int \<Rightarrow> probe" where
  "synthetic_windows limit payload =
     (if payload + 28 > limit then Some ''Packet needs to be fragmented but DF set.''
      else Some ''Reply from 8.8.8.8'')"

definition unreachable_windows :: probe where
  "unreachable_windows payload = Some ''Packets: Sent = 1, Received = 0, Lost = 1 (100% loss)''"

definition synthetic_linux :: "int \<Rightarrow> probe" where
  "synthetic_linux limit payload =
     (if payload + 28 > limit then Some ''ping: local error: Message too long''
      else Some ''64 bytes from 8.8.8.8'')"

section \<open>The apply sequence (advanced_config.py, \<open>apply_optimizations\<close>)\<close>

datatype os_type = Windows | Linux | Darwin | OtherOS

text \<open>The \<open>results\<close> dictionary that the apply functions fill in.\<close>

record apply_results =
  success :: bool
  applied :: "string list"
  failed :: "string list"
  messages :: "string list"

text \<open>
  A configuration maps a group name to the parameters of the group; a parameter value is kept
  as the text Python prints for it, which is all the apply sequence does with it.
\<close>

type_synonym config = "string \<rightharpoonup> (string \<rightharpoonup> string)"

text \<open>
  Every apply step is a \<open>try\<close> block with two statements and no platform action ("For now,
  just simulate success"): the name of the step is appended to \<open>applied\<close>, then a message
  is appended to \<open>messages\<close>. So a step can only raise once its name is in \<open>applied\<close>; the
  \<open>except\<close> branch then appends the name to \<open>failed\<close> and a message with the text of the
  exception. \<open>raises\<close> gives, for the step of that name, the text of the exception its
  second statement raises, if it raises.
\<close>

type_synonym fault = "string \<Rightarrow> string option"

definition try_step ::
  "fault \<Rightarrow> string \<Rightarrow> string \<Rightarrow> string \<Rightarrow> apply_results \<Rightarrow> apply_results" where
  "try_step raises name done_msg failed_msg res =
     (let r1 = res\<lparr>applied := applied res @ [name]\<rparr>
      in case raises name of
           None \<Rightarrow> r1\<lparr>messages := messages r1 @ [done_msg]\<rparr>
         | Some e \<Rightarrow> r1\<lparr>failed := failed r1 @ [name],
                         messages := messages r1 @ [failed_msg @ e]\<rparr>)"

definition apply_windows_optimizations ::
  "fault \<Rightarrow> config \<Rightarrow> apply_results \<Rightarrow> apply_results" where
  "apply_windows_optimizations raises cfg res =
     (let r1 = (if cfg ''tcp'' \<noteq> None
                then try_step raises ''windows_tcp'' ''Applied Windows TCP optimizations''
                       ''Failed to apply Windows TCP optimizations: '' res
                else res);
          r2 = (if cfg ''wifi'' \<noteq> None
                then try_step raises ''windows_wifi'' ''Applied Windows WiFi optimizations''
                       ''Failed to apply Windows WiFi optimizations: '' r1
                else r1)
      in r2)"

definition apply_linux_optimizations ::
  "fault \<Rightarrow> config \<Rightarrow> apply_results \<Rightarrow> apply_results" where
  "apply_linux_optimizations raises cfg res =
     (let r1 = (if cfg ''tcp'' \<noteq> None
                then try_step raises ''linux_tcp'' ''Applied Linux TCP optimizations''
                       ''Failed to apply Linux TCP optimizations: '' res
                else res);
          r2 = (if cfg ''wifi'' \<noteq> None
                then try_step raises ''linux_wifi'' ''Applied Linux WiFi optimizations''
                       ''Failed to apply Linux WiFi optimizations: '' r1
                else r1)
      in r2)"

definition apply_macos_optimizations ::
  "fault \<Rightarrow> config \<Rightarrow> apply_results \<Rightarrow> apply_results" where
  "apply_macos_optimizations raises cfg res =
     (let r1 = (if cfg ''tcp'' \<noteq> None
                then try_step raises ''macos_tcp'' ''Applied macOS TCP optimizations''
                       ''Failed to apply macOS TCP optimizations: '' res
                else res);
          r2 = (if cfg ''wifi'' \<noteq> None
                then try_step raises ''macos_wifi'' ''Applied macOS WiFi optimizations''
                       ''Failed to apply macOS WiFi optimizations: '' r1
                else r1)
      in r2)"

text \<open>The three parts of \<open>apply_optimizations\<close>, in the order of the source.\<close>

definition admin_warning :: "bool \<Rightarrow> apply_results \<Rightarrow> apply_results" where
  "admin_warning is_admin res =
     (if \<not> is_admin
      then res\<lparr>messages := messages res @
        [''Warning: Limited optimizations applied - administrator privileges required for full optimization'']\<rparr>
      else res)"

definition apply_platform ::
  "os_type \<Rightarrow> fault \<Rightarrow> config \<Rightarrow> apply_results \<Rightarrow> apply_results" where
  "apply_platform os raises cfg res =
     (if os = Windows then apply_windows_optimizations raises cfg res
      else if os = Linux then apply_linux_optimizations raises cfg res
      else if os = Darwin then apply_macos_optimizations raises cfg res
      else res)"

definition apply_dns :: "fault \<Rightarrow> config \<Rightarrow> apply_results \<Rightarrow> apply_results" where
  "apply_dns raises cfg res =
     (case cfg ''dns'' of
        None \<Rightarrow> res
      | Some dns \<Rightarrow>
          (case dns ''nameservers'' of
             None \<Rightarrow> res
           | Some servers \<Rightarrow>
               try_step raises ''dns_servers'' (''Set DNS servers to '' @ servers)
                 ''Failed to set DNS servers: '' res))"

definition apply_optimizations ::
  "bool \<Rightarrow> os_type \<Rightarrow> fault \<Rightarrow> config \<Rightarrow> apply_results" where
  "apply_optimizations is_admin os raises cfg =
     (let r0 = \<lparr>success = False, applied = [], failed = [], messages = []\<rparr>;
          r1 = admin_warning is_admin r0;
          r2 = apply_platform os raises cfg r1;
          r3 = apply_dns raises cfg r2
      in r3\<lparr>success := length (applied r3) > 0\<rparr>)"

text \<open>
  The names of the steps the sequence attempts, in order: the TCP and WiFi steps of the
  platform for the groups the configuration has, then the DNS step.
\<close>

definition platform_steps :: "os_type \<Rightarrow> config \<Rightarrow> string list" where
  "platform_steps os cfg =
     (case os of
        Windows \<Rightarrow> (if cfg ''tcp'' \<noteq> None then [''windows_tcp''] else [])
                   @ (if cfg ''wifi'' \<noteq> None then [''windows_wifi''] else [])
      | Linux \<Rightarrow> (if cfg ''tcp'' \<noteq> None then [''linux_tcp''] else [])
                 @ (if cfg ''wifi'' \<noteq> None then [''linux_wifi''] else [])
      | Darwin \<Rightarrow> (if cfg ''tcp'' \<noteq> None then [''macos_tcp''] else [])
                  @ (if cfg ''wifi'' \<noteq> None then [''macos_wifi''] else [])
      | OtherOS \<Rightarrow> [])"

definition dns_steps :: "config \<Rightarrow> string list" where
  "dns_steps cfg =
     (case cfg ''dns'' of
        None \<Rightarrow> []
      | Some dns \<Rightarrow> (if dns ''nameservers'' \<noteq> None then [''dns_servers''] else []))"

definition apply_steps :: "os_type \<Rightarrow> config \<Rightarrow> string list" where
  "apply_steps os cfg = platform_steps os cfg @ dns_steps cfg"




section \<open>The orchestrator (core.py, class \<open>SignalBooster\<close>)\<close>

subsection \<open>Python values and their text\<close>

text \<open>
  The values the baseline dictionaries hold: numbers, texts, booleans, lists of texts and
  one level of nested dictionary. A dictionary is an association list in insertion order.
\<close>

datatype pyval =
    PyInt int
  | PyStr string
  | PyBool bool
  | PyList "string list"
  | PyDict "(string \<times> string) list"

type_synonym pydict = "(string \<times> pyval) list"

definition digit_char :: "nat \<Rightarrow> char" where
  "digit_char d = ''0123456789'' ! d"

function show_nat :: "nat \<Rightarrow> string" where
  "show_nat n = (if n < 10 then [digit_char n] else show_nat (n div 10) @ [digit_char (n mod 10)])"
  by pat_completeness auto
termination
  by (relation "measure id") auto

declare show_nat.simps [simp del]

definition show_int :: "int \<Rightarrow> string" where
  "show_int i = (if i < 0 then CHR ''-'' # show_nat (nat (- i)) else show_nat (nat i))"

fun join_with :: "string \<Rightarrow> string list \<Rightarrow> string" where
  "join_with sep [] = []"
| "join_with sep [x] = x"
| "join_with sep (x # y # ys) = x @ sep @ join_with sep (y # ys)"

text \<open>\<open>str(v)\<close>, as an f-string renders a value (texts inside a container are quoted).\<close>

definition py_quote :: "string \<Rightarrow> string" where
  "py_quote s = [CHR 0x27] @ s @ [CHR 0x27]"

definition py_str :: "pyval \<Rightarrow> string" where
  "py_str v =
     (case v of
        PyInt i \<Rightarrow> show_int i
      | PyStr s \<Rightarrow> s
      | PyBool b \<Rightarrow> (if b then ''True'' else ''False'')
      | PyList xs \<Rightarrow> ''['' @ join_with '', '' (map py_quote xs) @ '']''
      | PyDict kvs \<Rightarrow>
          ''{'' @ join_with '', '' (map (\<lambda>(k, x). py_quote k @ '': '' @ py_quote x) kvs) @ ''}'')"

text \<open>Truth value of a Python value in a condition.\<close>

definition py_truthy :: "pyval \<Rightarrow> bool" where
  "py_truthy v =
     (case v of
        PyInt i \<Rightarrow> i \<noteq> 0
      | PyStr s \<Rightarrow> s \<noteq> []
      | PyBool b \<Rightarrow> b
      | PyList xs \<Rightarrow> xs \<noteq> []
      | PyDict kvs \<Rightarrow> kvs \<noteq> [])"

text \<open>\<open>if self.active_interface:\<close> holds for a name that is neither \<open>None\<close> nor empty.\<close>

definition have_interface :: "string option \<Rightarrow> bool" where
  "have_interface i = (case i of None \<Rightarrow> False | Some s \<Rightarrow> s \<noteq> [])"

definition interface_name :: "string option \<Rightarrow> string" where
  "interface_name i = (case i of None \<Rightarrow> ''None'' | Some s \<Rightarrow> s)"

text \<open>\<open>str.lower\<close> on ASCII text.\<close>

definition lower_char :: "char \<Rightarrow> char" where
  "lower_char c =
     (case map_of (zip ''ABCDEFGHIJKLMNOPQRSTUVWXYZ'' ''abcdefghijklmnopqrstuvwxyz'') c of
        Some l \<Rightarrow> l
      | None \<Rightarrow> c)"

definition py_lower :: "string \<Rightarrow> string" where
  "py_lower s = map lower_char s"

subsection \<open>State and effects\<close>

text \<open>
  What the orchestrator does to the outside world is logged, in order, as events: a
  subprocess it runs (by its argument vector), a file it copies or removes, a call into
  the visualizer, the join on the monitor thread (with its timeout in seconds), a run of
  the apply sequence, a sleep.
\<close>

datatype event =
    Run "string list"
  | CopyFile string string
  | RemoveFile string
  | VisualizerStop
  | VisualizerUpdate
  | JoinMonitor rat
  | ApplyOptimizations
  | Sleep rat

text \<open>
  The attributes of \<open>SignalBooster\<close> the modelled methods read or write.
  \<open>original_settings\<close> is the baseline: platform name, then group name, then the
  dictionary of the group. \<open>monitor_thread\<close> is \<open>None\<close> while the attribute does not exist
  and otherwise says whether the thread is alive. \<open>events\<close> is the log.
\<close>

record booster =
  active :: bool
  is_running :: bool
  current_speed :: rat
  current_signal :: int
  target_speed :: rat
  target_signal_strength :: int
  optimization_level_value :: rat
  os_type :: os_type
  active_interface :: "string option"
  original_settings :: "(string \<times> (string \<times> pydict) list) list"
  monitor_thread :: "bool option"
  events :: "event list"

definition log_events :: "event list \<Rightarrow> booster \<Rightarrow> booster" where
  "log_events es b = b\<lparr>events := events b @ es\<rparr>"

subsection \<open>Capturing the baseline (\<open>_get_windows_tcp_params\<close>)\<close>

text \<open>The outcome of one registry read.\<close>

datatype reg_read = RegValue int | RegFileNotFound | RegOSError | RegOtherError

text \<open>
  \<open>netsh\<close> is \<open>None\<close> when \<open>check_output\<close> raises, and otherwise the texts the two regular
  expressions captured (each \<open>None\<close> without a match). \<open>win\<close>, \<open>syn\<close> and \<open>ttl\<close> are the
  reads of \<open>TcpWindowSize\<close>, \<open>TcpMaxDataRetransmissions\<close> and \<open>DefaultTTL\<close>. An exception
  no inner handler catches ends the function with the entries made so far.
\<close>

definition get_windows_tcp_params ::
  "(string option \<times> string option) option \<Rightarrow> reg_read \<Rightarrow> reg_read \<Rightarrow> reg_read \<Rightarrow> pydict" where
  "get_windows_tcp_params netsh win syn ttl =
     (case netsh of
        None \<Rightarrow> []
      | Some (autotuning_match, congestion_match) \<Rightarrow>
          (let p1 = (case autotuning_match of
                       Some a \<Rightarrow> [(''autotuning'', PyStr (py_lower a))] | None \<Rightarrow> []);
               p2 = p1 @ (case congestion_match of
                       Some c \<Rightarrow> [(''congestion_provider'', PyStr c)] | None \<Rightarrow> [])
           in case win of
                RegValue w \<Rightarrow>
                  (let p3 = p2 @ [(''window_size'', PyInt w)] in
                   case syn of
                     RegValue s \<Rightarrow>
                       (case ttl of
                          RegValue t \<Rightarrow>
                            p3 @ [(''max_syn_retransmissions'', PyInt s), (''ttl'', PyInt t)]
                        | RegOtherError \<Rightarrow> p3 @ [(''max_syn_retransmissions'', PyInt s)]
                        | _ \<Rightarrow> p3 @ [(''max_syn_retransmissions'', PyInt 2), (''ttl'', PyInt 128)])
                   | RegOtherError \<Rightarrow> p3
                   | _ \<Rightarrow> p3 @ [(''max_syn_retransmissions'', PyInt 2), (''ttl'', PyInt 128)])
              | RegFileNotFound \<Rightarrow>
                  (let p3 = p2 @ [(''window_size'', PyInt 65535)] in
                   case syn of
                     RegValue s \<Rightarrow>
                       (case ttl of
                          RegValue t \<Rightarrow>
                            p3 @ [(''max_syn_retransmissions'', PyInt s), (''ttl'', PyInt t)]
                        | RegOtherError \<Rightarrow> p3 @ [(''max_syn_retransmissions'', PyInt s)]
                        | _ \<Rightarrow> p3 @ [(''max_syn_retransmissions'', PyInt 2), (''ttl'', PyInt 128)])
                   | RegOtherError \<Rightarrow> p3
                   | _ \<Rightarrow> p3 @ [(''max_syn_retransmissions'', PyInt 2), (''ttl'', PyInt 128)])
              | _ \<Rightarrow> p2))"

subsection \<open>Restoring the baseline (\<open>_restore_original_settings\<close>)\<close>

text \<open>
  What the operating system answers while settings are restored: whether running a command
  raises (the executable is missing, say; \<open>check=False\<close> ignores its exit status), which
  paths exist, and the lines \<open>networksetup -listallnetworkservices\<close> prints (\<open>None\<close> when
  it cannot be started). Copying or removing a file is the last statement of its \<open>try\<close>
  block, so whether it raises changes nothing that follows: the attempt is logged.
\<close>

record restore_env =
  cmd_raises :: "string list \<Rightarrow> bool"
  path_exists :: "string \<Rightarrow> bool"
  network_services :: "string list option"

text \<open>
  The commands of one \<open>try\<close> block, run in order: a command that raises has been attempted
  and ends the block.
\<close>

fun run_commands :: "(string list \<Rightarrow> bool) \<Rightarrow> string list list \<Rightarrow> event list" where
  "run_commands raises [] = []"
| "run_commands raises (c # cs) = Run c # (if raises c then [] else run_commands raises cs)"

definition restore_windows_tcp :: "restore_env \<Rightarrow> pydict \<Rightarrow> event list" where
  "restore_windows_tcp env tcp_params =
     run_commands (cmd_raises env)
       ((if map_of tcp_params ''window_size'' \<noteq> None
         then [[''netsh'', ''interface'', ''tcp'', ''set'', ''global'',
                ''autotuninglevel='' @ py_str (case map_of tcp_params ''autotuning'' of
                                                  Some a \<Rightarrow> a | None \<Rightarrow> PyStr ''normal'')]]
         else [])
        @ (case map_of tcp_params ''congestion_provider'' of
             Some c \<Rightarrow> [[''netsh'', ''interface'', ''tcp'', ''set'', ''global'',
                          ''congestionprovider='' @ py_str c]]
           | None \<Rightarrow> []))"

definition restore_windows_qos :: "restore_env \<Rightarrow> event list" where
  "restore_windows_qos env =
     run_commands (cmd_raises env)
       [[''netsh'', ''advfirewall'', ''firewall'', ''delete'', ''rule'',
         ''name=SignalBoosterRealTime''],
        [''netsh'', ''advfirewall'', ''firewall'', ''delete'', ''rule'',
         ''name=SignalBoosterWeb'']]"

definition restore_windows_power :: "restore_env \<Rightarrow> string option \<Rightarrow> pydict \<Rightarrow> event list" where
  "restore_windows_power env iface power_settings =
     (if py_truthy (case map_of power_settings ''power_saving_enabled'' of
                      Some v \<Rightarrow> v | None \<Rightarrow> PyBool True)
      then run_commands (cmd_raises env)
             [[''powershell'',
               ''Set-NetAdapterPowerManagement -Name '' @ py_quote (interface_name iface)
                 @ '' -WakeOnMagicPacket Enabled -WakeOnPattern Enabled'']]
      else [])"

definition restore_windows ::
  "restore_env \<Rightarrow> string option \<Rightarrow> (string \<times> pydict) list \<Rightarrow> event list" where
  "restore_windows env iface settings =
     (case map_of settings ''tcp_params'' of
        Some tcp_params \<Rightarrow> restore_windows_tcp env tcp_params | None \<Rightarrow> [])
     @ (if map_of settings ''qos_settings'' \<noteq> None then restore_windows_qos env else [])
     @ (case map_of settings ''power_settings'' of
          Some power_settings \<Rightarrow>
            (if have_interface iface then restore_windows_power env iface power_settings else [])
        | None \<Rightarrow> [])"

definition restore_linux ::
  "restore_env \<Rightarrow> string option \<Rightarrow> (string \<times> pydict) list \<Rightarrow> event list" where
  "restore_linux env iface settings =
     (case map_of settings ''sysctl_params'' of
        Some sysctl_params \<Rightarrow>
          run_commands (cmd_raises env)
            (map (\<lambda>(param, v). [''sysctl'', ''-w'', param @ ''='' @ py_str v]) sysctl_params)
      | None \<Rightarrow> [])
     @ (if map_of settings ''dns_settings'' \<noteq> None \<and> path_exists env ''/etc/resolv.conf.bak''
        then [CopyFile ''/etc/resolv.conf.bak'' ''/etc/resolv.conf''] else [])
     @ (if have_interface iface
        then run_commands (cmd_raises env)
               [[''tc'', ''qdisc'', ''del'', ''dev'', interface_name iface, ''root'']]
        else [])
     @ run_commands (cmd_raises env) [[''iptables'', ''-t'', ''mangle'', ''-F'']]"

text \<open>The first service whose lower-cased name contains "wi-fi" or "airport".\<close>

fun find_wifi_service :: "string list \<Rightarrow> string option" where
  "find_wifi_service [] = None"
| "find_wifi_service (s # ss) =
     (if str_in ''wi-fi'' (py_lower s) \<or> str_in ''airport'' (py_lower s) then Some s
      else find_wifi_service ss)"

definition restore_macos_dns :: "restore_env \<Rightarrow> string option \<Rightarrow> pydict \<Rightarrow> event list" where
  "restore_macos_dns env iface network_settings =
     (case map_of network_settings ''dns_servers'' of
        None \<Rightarrow> []
      | Some original_dns \<Rightarrow>
          (if have_interface iface \<and> py_truthy original_dns
           then Run [''networksetup'', ''-listallnetworkservices''] #
             (case network_services env of
                None \<Rightarrow> []
              | Some lines \<Rightarrow>
                  (case find_wifi_service (tl lines) of
                     None \<Rightarrow> []
                   | Some wifi_service \<Rightarrow>
                       (case original_dns of
                          PyList servers \<Rightarrow>
                            run_commands (cmd_raises env)
                              [[''networksetup'', ''-setdnsservers'', wifi_service] @ servers]
                        | _ \<Rightarrow> [])))
           else []))"

definition restore_macos ::
  "restore_env \<Rightarrow> string option \<Rightarrow> (string \<times> pydict) list \<Rightarrow> event list" where
  "restore_macos env iface settings =
     (case map_of settings ''network_settings'' of
        Some network_settings \<Rightarrow> restore_macos_dns env iface network_settings | None \<Rightarrow> [])
     @ run_commands (cmd_raises env) [[''pfctl'', ''-d'']]"

definition temp_files :: "string list" where
  "temp_files = [''/tmp/pf_signal_booster.conf'', ''/tmp/pf_priorities.conf'',
                 ''/tmp/pf_bw_control.conf'']"

definition cleanup_temp_files :: "restore_env \<Rightarrow> event list" where
  "cleanup_temp_files env = map RemoveFile (filter (path_exists env) temp_files)"

text \<open>The events of \<open>_restore_original_settings\<close>. It reads the baseline and leaves it as it is.\<close>

definition restore_events :: "restore_env \<Rightarrow> booster \<Rightarrow> event list" where
  "restore_events env b =
     (if os_type b = Windows \<and> map_of (original_settings b) ''windows'' \<noteq> None
      then restore_windows env (active_interface b) (the (map_of (original_settings b) ''windows''))
      else if os_type b = Linux \<and> map_of (original_settings b) ''linux'' \<noteq> None
      then restore_linux env (active_interface b) (the (map_of (original_settings b) ''linux''))
      else if os_type b = Darwin \<and> map_of (original_settings b) ''macos'' \<noteq> None
      then restore_macos env (active_interface b) (the (map_of (original_settings b) ''macos''))
      else [])
     @ cleanup_temp_files env"

definition restore_original_settings :: "restore_env \<Rightarrow> booster \<Rightarrow> booster" where
  "restore_original_settings env b = log_events (restore_events env b) b"

subsection \<open>Stopping (\<open>stop_boosting\<close>, \<open>stop\<close>)\<close>

definition stop_boosting :: "restore_env \<Rightarrow> booster \<Rightarrow> booster" where
  "stop_boosting env b =
     (if \<not> active b \<and> \<not> is_running b then b
      else
        (let b1 = b\<lparr>active := False, is_running := False\<rparr>;
             b2 = log_events [VisualizerStop] b1;
             b3 = restore_original_settings env b2;
             b4 = (if monitor_thread b3 = Some True then log_events [JoinMonitor 2] b3 else b3)
         in b4))"

definition stop :: "restore_env \<Rightarrow> booster \<Rightarrow> booster" where
  "stop env b = stop_boosting env (b\<lparr>active := False, is_running := False\<rparr>)"

subsection \<open>The monitor loop (\<open>_monitor_and_optimize\<close>)\<close>

text \<open>
  What one pass through the loop body meets: the download speed and signal the two
  measuring methods return; whether a visualizer call raises, for the calls before the
  check (\<open>add_data_point\<close>, \<open>display_metrics\<close>), the one before the re-apply
  (\<open>display_optimization_progress\<close>) and the one after it (\<open>display_optimization_actions\<close>);
  the signal \<open>_optimize_signal_strength\<close> stores when it completes (it runs inside
  \<open>_apply_optimizations\<close> when the signal is below target); and whether another thread
  clears the flags while the loop sleeps.
\<close>

record iteration =
  measured_speed :: rat
  measured_signal :: int
  display_raises :: bool
  progress_raises :: bool
  actions_raises :: bool
  signal_after_optimize :: "int option"
  stop_requested :: bool

text \<open>
  The last statement of \<open>_apply_optimizations\<close>. Python raises \<open>ZeroDivisionError\<close> on a
  zero target; \<open>apply_optimizations_call\<close> checks for that before using it.
\<close>

definition refresh_optimization_level :: "booster \<Rightarrow> booster" where
  "refresh_optimization_level b =
     b\<lparr>optimization_level_value :=
         min (of_int (current_signal b) / of_int (target_signal_strength b) * 100)
             (current_speed b / target_speed b * 100)\<rparr>"

text \<open>
  \<open>_apply_optimizations\<close> as the orchestrator's own state sees it: the run is logged (what it
  does to the operating system is outside this model), the signal is replaced when the
  signal optimization completed, and the optimization value is recomputed. \<open>Inl\<close> is the
  state at the moment \<open>ZeroDivisionError\<close> is raised.
\<close>

definition apply_optimizations_call :: "int option \<Rightarrow> booster \<Rightarrow> booster + booster" where
  "apply_optimizations_call new_signal b =
     (let b1 = log_events [ApplyOptimizations] b;
          b2 = (if current_signal b1 < target_signal_strength b1
                then (case new_signal of Some s \<Rightarrow> b1\<lparr>current_signal := s\<rparr> | None \<Rightarrow> b1)
                else b1)
      in if target_signal_strength b2 = 0 \<or> target_speed b2 = 0 then Inl b2
         else Inr (refresh_optimization_level b2))"

definition end_of_iteration :: "iteration \<Rightarrow> booster \<Rightarrow> booster" where
  "end_of_iteration i b =
     (let b1 = log_events [Sleep 2] b
      in if stop_requested i then b1\<lparr>active := False, is_running := False\<rparr> else b1)"

text \<open>One pass through the loop body; \<open>Inl\<close> is the state when the pass raises.\<close>

definition monitor_pass :: "iteration \<Rightarrow> booster \<Rightarrow> booster + booster" where
  "monitor_pass i b =
     (let b1 = b\<lparr>current_speed := measured_speed i, current_signal := measured_signal i\<rparr>
      in if display_raises i then Inl b1
         else
           (let b2 = log_events [VisualizerUpdate] b1
            in if current_signal b2 < target_signal_strength b2
               then (if progress_raises i then Inl b2
                     else (case apply_optimizations_call (signal_after_optimize i) b2 of
                             Inl b3 \<Rightarrow> Inl b3
                           | Inr b3 \<Rightarrow>
                               (if actions_raises i then Inl b3
                                else Inr (end_of_iteration i b3))))
               else (if actions_raises i then Inl b2 else Inr (end_of_iteration i b2))))"

text \<open>
  The loop over the passes observed. It ends, through \<open>finally\<close>, when \<open>self.active\<close> is
  false at the top of a pass or when a pass raises; with no pass left to observe the loop
  is still running.
\<close>

fun monitor_and_optimize :: "booster \<Rightarrow> iteration list \<Rightarrow> booster" where
  "monitor_and_optimize b [] = b"
| "monitor_and_optimize b (i # rest) =
     (if \<not> active b then log_events [VisualizerStop] b
      else (case monitor_pass i b of
              Inl b' \<Rightarrow> log_events [VisualizerStop] b'
            | Inr b' \<Rightarrow> monitor_and_optimize b' rest))"

definition apply_count :: "event list \<Rightarrow> nat" where
  "apply_count es = length (filter (\<lambda>e. e = ApplyOptimizations) es)"

subsection \<open>Metrics for the dashboard (\<open>get_current_metrics\<close>)\<close>







subsection \<open>Concrete sessions\<close>

text \<open>
  A running Windows session on interface "Wi-Fi" whose baseline is what the capture
  functions return on a machine with default TCP settings.
\<close>

definition default_tcp_params :: pydict where
  "default_tcp_params =
     get_windows_tcp_params (Some (Some ''Normal'', Some ''CTCP''))
       RegFileNotFound RegFileNotFound RegFileNotFound"

definition windows_baseline :: "(string \<times> (string \<times> pydict) list) list" where
  "windows_baseline =
     [(''windows'',
       [(''tcp_params'', default_tcp_params),
        (''power_settings'', [(''power_saving_enabled'', PyBool True),
                              (''selective_suspend'', PyBool True)]),
        (''qos_settings'', [(''packet_scheduler_enabled'', PyBool True),
                            (''existing_rules'', PyList [])])])]"

definition running_session :: booster where
  "running_session =
     \<lparr>active = True, is_running = True, current_speed = 5, current_signal = 90,
      target_speed = 20, target_signal_strength = 85, optimization_level_value = 25,
      os_type = Windows, active_interface = Some ''Wi-Fi'',
      original_settings = windows_baseline, monitor_thread = Some True, events = []\<rparr>"

definition quiet_env :: restore_env where
  "quiet_env = \<lparr>cmd_raises = (\<lambda>c. False), path_exists = (\<lambda>p. False),
                network_services = None\<rparr>"

text \<open>A pass that measures 5 Mbit/s and a signal of 90, and in which nothing raises.\<close>

definition slow_but_strong :: iteration where
  "slow_but_strong =
     \<lparr>measured_speed = 5, measured_signal = 90, display_raises = False,
      progress_raises = False, actions_raises = False, signal_after_optimize = None,
      stop_requested = False\<rparr>"

text \<open>The same speed with a signal of 60.\<close>

definition slow_and_weak :: iteration where
  "slow_and_weak = slow_but_strong\<lparr>measured_signal := 60\<rparr>"



text \<open>
  A running Linux session on interface "wlan0" whose baseline holds three of the \<open>sysctl\<close>
  parameters the capture reads (each as the text \<open>sysctl -n\<close> printed) and the name servers
  of \<open>/etc/resolv.conf\<close>.
\<close>

definition linux_baseline :: "(string \<times> (string \<times> pydict) list) list" where
  "linux_baseline =
     [(''linux'',
       [(''sysctl_params'', [(''net.ipv4.tcp_congestion_control'', PyStr ''cubic''),
                             (''net.core.rmem_max'', PyStr ''212992''),
                             (''net.core.somaxconn'', PyStr ''4096'')]),
        (''dns_settings'', [(''nameservers'', PyList [''192.168.1.1''])])])]"

definition linux_session :: booster where
  "linux_session =
     running_session\<lparr>os_type := Linux, active_interface := Some ''wlan0'',
                      original_settings := linux_baseline\<rparr>"

section \<open>Diagnostics (core.py)\<close>

subsection \<open>Congestion (\<open>_analyze_network_congestion\<close>)\<close>

text \<open>
  \<open>measure_latency\<close> of network/utils.py starts from a dictionary of zeros and overwrites
  it when ping ran and its summary line matched; it catches every exception. \<open>ping\<close> is the
  minimum, average and maximum parsed from the summary, \<open>None\<close> when ping raised or nothing
  matched.
\<close>

definition measure_latency :: "(rat \<times> rat \<times> rat) option \<Rightarrow> (string \<times> rat) list" where
  "measure_latency ping =
     (case ping of
        None \<Rightarrow> [(''min'', 0), (''avg'', 0), (''max'', 0)]
      | Some (mn, av, mx) \<Rightarrow> [(''min'', mn), (''avg'', av), (''max'', mx)])"

text \<open>
  What the machine answers during one analysis. The interface statistics hold the counters
  the code parsed before anything in that \<open>try\<close> block raised: on Windows the received and
  discarded packets when both were matched, on Linux the packets, errors and drops of every
  line of \<open>/proc/net/dev\<close> naming the interface, on macOS the packets and errors of the line
  after each line of \<open>netstat -i\<close> naming it. \<open>has_getloadavg\<close> is \<open>hasattr(os, "getloadavg")\<close>;
  the load average and the CPU percentage are \<open>None\<close> when reading them raises.
\<close>

record congestion_env =
  ping :: "(rat \<times> rat \<times> rat) option"
  windows_stats :: "(nat \<times> nat) option"
  linux_stats :: "(nat \<times> nat \<times> nat) list"
  darwin_stats :: "(nat \<times> nat) list"
  has_getloadavg :: bool
  loadavg :: "rat option"
  cpu_percent :: "rat option"

text \<open>
  Factor 1, guarded by \<open>if latency_results:\<close>, the truth value of the dictionary. \<open>None\<close> is
  a \<open>KeyError\<close>, which the outer handler turns into the default.
\<close>

definition latency_factors :: "(string \<times> rat) list \<Rightarrow> rat list option" where
  "latency_factors latency_results =
     (if latency_results \<noteq> []
      then (case (map_of latency_results ''max'', map_of latency_results ''min'',
                  map_of latency_results ''avg'') of
              (Some mx, Some mn, Some av) \<Rightarrow>
                Some [min 100 (mx - mn), min 100 (max 0 ((av - 10) / 190 * 100))]
            | _ \<Rightarrow> None)
      else Some [])"

text \<open>\<open>min(100, (x / max(1, packets)) * 100)\<close>.\<close>

definition loss_percent :: "nat \<Rightarrow> nat \<Rightarrow> rat" where
  "loss_percent x packets = min 100 (of_nat x / of_nat (max 1 packets) * 100)"

text \<open>Factor 2, the interface statistics of the platform.\<close>

definition interface_factors :: "os_type \<Rightarrow> string option \<Rightarrow> congestion_env \<Rightarrow> rat list" where
  "interface_factors os iface env =
     (if have_interface iface
      then (case os of
              Windows \<Rightarrow>
                (case windows_stats env of
                   Some (received, dropped) \<Rightarrow>
                     (if received > 0 then [loss_percent dropped received] else [])
                 | None \<Rightarrow> [])
            | Linux \<Rightarrow>
                concat (map (\<lambda>(packets, errors, drops).
                               if packets > 0
                               then [loss_percent errors packets, loss_percent drops packets]
                               else [])
                            (linux_stats env))
            | Darwin \<Rightarrow>
                concat (map (\<lambda>(packets, errors).
                               if packets > 0 then [loss_percent errors packets] else [])
                            (darwin_stats env))
            | OtherOS \<Rightarrow> [])
      else [])"

text \<open>Factor 3, the system load.\<close>

definition load_factors :: "os_type \<Rightarrow> congestion_env \<Rightarrow> rat list" where
  "load_factors os env =
     (if has_getloadavg env
      then (case loadavg env of
              Some load \<Rightarrow> [min 100 (max 0 ((load - 1) / 4 * 100)) * (1 / 2)]
            | None \<Rightarrow> [])
      else if os = Windows
      then (case cpu_percent env of
              Some c \<Rightarrow> (if c > 80 then [50] else [])
            | None \<Rightarrow> [])
      else [])"

text \<open>\<open>sum(factors) / len(factors)\<close>, only ever called on a non-empty list.\<close>

definition mean :: "rat list \<Rightarrow> rat" where
  "mean xs = sum_list xs / of_nat (length xs)"

definition congestion_factors ::
  "os_type \<Rightarrow> string option \<Rightarrow> congestion_env \<Rightarrow> rat list option" where
  "congestion_factors os iface env =
     (case latency_factors (measure_latency (ping env)) of
        None \<Rightarrow> None
      | Some fs \<Rightarrow> Some (fs @ interface_factors os iface env @ load_factors os env))"

definition analyze_network_congestion ::
  "os_type \<Rightarrow> string option \<Rightarrow> congestion_env \<Rightarrow> rat" where
  "analyze_network_congestion os iface env =
     (case congestion_factors os iface env of
        None \<Rightarrow> 30
      | Some fs \<Rightarrow> (if fs \<noteq> [] then mean fs else 30))"

subsection \<open>Interference (\<open>_check_for_interference\<close>)\<close>

text \<open>
  \<open>same_channel\<close> is the number of scanned networks on the current channel, \<open>None\<close> when
  the block leaves \<open>channel_congestion\<close> at 0 or raises before the factor is added (no
  current channel found, no scanning tool, another platform). \<open>signal_samples\<close> are the
  three readings of the signal, \<open>None\<close> when taking them raises. \<open>windows_channel\<close> is the
  channel the last \<open>netsh\<close> query reports, \<open>None\<close> when none is matched or the query raises.
\<close>

record interference_env =
  same_channel :: "nat option"
  signal_samples :: "int list option"
  windows_channel :: "nat option"

definition channel_factors :: "interference_env \<Rightarrow> rat list" where
  "channel_factors env =
     (case same_channel env of
        Some network_count \<Rightarrow>
          (let channel_congestion = min 100 (network_count * 10)
           in if channel_congestion > 0 then [of_nat channel_congestion] else [])
      | None \<Rightarrow> [])"

definition variation_factors :: "interference_env \<Rightarrow> rat list" where
  "variation_factors env =
     (case signal_samples env of
        Some samples \<Rightarrow>
          (if samples \<noteq> []
           then (let variation = Max (set samples) - Min (set samples)
                 in if variation > 0 then [of_int (min 100 (variation * 5))] else [])
           else [])
      | None \<Rightarrow> [])"

definition band_factors :: "os_type \<Rightarrow> interference_env \<Rightarrow> rat list" where
  "band_factors os env =
     (if os = Windows
      then (case windows_channel env of
              Some channel \<Rightarrow> (if 1 \<le> channel \<and> channel \<le> 13 then [30] else [])
            | None \<Rightarrow> [])
      else [])"

definition interference_factors :: "os_type \<Rightarrow> interference_env \<Rightarrow> rat list" where
  "interference_factors os env = channel_factors env @ variation_factors env @ band_factors os env"

definition check_for_interference :: "os_type \<Rightarrow> interference_env \<Rightarrow> rat" where
  "check_for_interference os env =
     (if interference_factors os env \<noteq> [] then mean (interference_factors os env) else 20)"

subsection \<open>Concrete measurements\<close>

text \<open>
  A Windows machine on which nothing can be measured: ping fails, no interface is known,
  and the CPU is at 10 percent.
\<close>

definition nothing_measured :: congestion_env where
  "nothing_measured =
     \<lparr>ping = None, windows_stats = None, linux_stats = [], darwin_stats = [],
      has_getloadavg = False, loadavg = None, cpu_percent = Some 10\<rparr>"

text \<open>A ping of 12/29/52 ms on a Linux interface with 1000 packets, 10 errors, 20 drops.\<close>

definition busy_link :: congestion_env where
  "busy_link =
     \<lparr>ping = Some (12, 29, 52), windows_stats = None, linux_stats = [(1000, 10, 20)],
      darwin_stats = [], has_getloadavg = True, loadavg = Some 3, cpu_percent = None\<rparr>"

text \<open>No network on the channel, a steady signal.\<close>

definition quiet_air :: interference_env where
  "quiet_air = \<lparr>same_channel = Some 0, signal_samples = Some [70, 70, 70], windows_channel = None\<rparr>"

definition crowded_air :: interference_env where
  "crowded_air = \<lparr>same_channel = Some 4, signal_samples = Some [70, 64, 68], windows_channel = Some 6\<rparr>"

section \<open>Channel selection (network/platform)\<close>

subsection \<open>Windows (\<open>find_windows_best_channel\<close>)\<close>







subsection \<open>macOS (\<open>find_macos_best_channel\<close>)\<close>












subsection \<open>The weighting the specification describes\<close>




subsection \<open>Concrete scans\<close>






section \<open>Verified properties\<close>

subsection \<open>Feature flags\<close>





subsection \<open>MTU discovery\<close>

lemma mtu_search_stop: "\<not> max_mtu st - min_mtu st > 8 \<Longrightarrow> mtu_search f st = st"
  by (simp add: mtu_search.simps[of f st])

lemma mtu_search_step:
  "max_mtu st - min_mtu st > 8 \<Longrightarrow> mtu_search f st = mtu_search f (mtu_probe_step f st)"
  by (simp add: mtu_search.simps[of f st])

lemma mtu_search_induct_inv:
  assumes "P st"
    and "\<And>s. P s \<Longrightarrow> max_mtu s - min_mtu s > 8 \<Longrightarrow> P (mtu_probe_step f s)"
  shows "P (mtu_search f st)"
  using assms
proof (induction f st rule: mtu_search.induct)
  case (1 f st)
  show ?case
  proof (cases "max_mtu st - min_mtu st > 8")
    case False
    then show ?thesis using "1.prems"(1) by (simp add: mtu_search_stop)
  next
    case True
    have "P (mtu_probe_step f st)" by (rule "1.prems"(2)[OF "1.prems"(1) True])
    then have "P (mtu_search f (mtu_probe_step f st))"
      by (rule "1.IH"[OF True _ "1.prems"(2)])
    then show ?thesis by (simp add: mtu_search_step[OF True])
  qed
qed


lemma mtu_search_width: "max_mtu (mtu_search f st) - min_mtu (mtu_search f st) \<le> 8"
proof (induction f st rule: mtu_search.induct)
  case (1 f st)
  show ?case
  proof (cases "max_mtu st - min_mtu st > 8")
    case False
    then show ?thesis by (simp add: mtu_search_stop)
  next
    case True
    from "1.IH"[OF True] show ?thesis by (simp add: mtu_search_step[OF True])
  qed
qed

lemma mtu_probe_step_range:
  fixes s :: mtu_state
  assumes "max_mtu s - min_mtu s > 8"
  shows "min_mtu s \<le> min_mtu (mtu_probe_step f s)"
    and "min_mtu (mtu_probe_step f s) < max_mtu (mtu_probe_step f s)"
    and "max_mtu (mtu_probe_step f s) \<le> max_mtu s"
    and "optimal_mtu (mtu_probe_step f s) = optimal_mtu s
         \<or> optimal_mtu (mtu_probe_step f s) = min_mtu (mtu_probe_step f s)"
  using assms by (auto simp: mtu_probe_step_def Let_def)

lemma mtu_search_bounds:
  assumes "lo \<le> min_mtu st" "min_mtu st < max_mtu st" "max_mtu st \<le> hi"
     "lo \<le> optimal_mtu st" "optimal_mtu st \<le> hi"
  shows "lo \<le> optimal_mtu (mtu_search f st) \<and> optimal_mtu (mtu_search f st) \<le> hi"
proof -
  let ?P = "\<lambda>s. lo \<le> min_mtu s \<and> min_mtu s < max_mtu s
     \<and> max_mtu s \<le> hi \<and> lo \<le> optimal_mtu s \<and> optimal_mtu s \<le> hi"
  have "?P (mtu_search f st)"
  proof (rule mtu_search_induct_inv[where P = ?P])
    show "?P st" using assms by simp
  next
    fix s :: mtu_state assume a: "?P s" and w: "max_mtu s - min_mtu s > 8"
    from mtu_probe_step_range[OF w, of f] a show "?P (mtu_probe_step f s)" by auto
  qed
  then show ?thesis by simp
qed

lemma mtu_search_confirmed:
  assumes "min_mtu st = lo \<or> \<not> f (min_mtu st - 28)" "max_mtu st = hi \<or> f (max_mtu st - 28)"
  shows "(min_mtu (mtu_search f st) = lo \<or> \<not> f (min_mtu (mtu_search f st) - 28))
       \<and> (max_mtu (mtu_search f st) = hi \<or> f (max_mtu (mtu_search f st) - 28))"
proof (rule mtu_search_induct_inv[where P = "\<lambda>s. (min_mtu s = lo \<or> \<not> f (min_mtu s - 28))
       \<and> (max_mtu s = hi \<or> f (max_mtu s - 28))"])
  show "(min_mtu st = lo \<or> \<not> f (min_mtu st - 28)) \<and> (max_mtu st = hi \<or> f (max_mtu st - 28))"
    using assms by simp
next
  fix s :: mtu_state assume "(min_mtu s = lo \<or> \<not> f (min_mtu s - 28)) \<and> (max_mtu s = hi \<or> f (max_mtu s - 28))"
  then show "(min_mtu (mtu_probe_step f s) = lo \<or> \<not> f (min_mtu (mtu_probe_step f s) - 28))
     \<and> (max_mtu (mtu_probe_step f s) = hi \<or> f (max_mtu (mtu_probe_step f s) - 28))"
    by (cases "f ((max_mtu s + min_mtu s) div 2 - 28)") (simp_all add: mtu_probe_step_def Let_def)
qed

lemma mtu_search_optimal:
  assumes "optimal_mtu st = (if \<forall>t \<in> set (probed st). f (t - 28) then d else min_mtu st)"
  shows "optimal_mtu (mtu_search f st) =
     (if \<forall>t \<in> set (probed (mtu_search f st)). f (t - 28) then d else min_mtu (mtu_search f st))"
proof (rule mtu_search_induct_inv[where P = "\<lambda>s. optimal_mtu s =
       (if \<forall>t \<in> set (probed s). f (t - 28) then d else min_mtu s)"])
  show "optimal_mtu st = (if \<forall>t \<in> set (probed st). f (t - 28) then d else min_mtu st)"
    by (rule assms)
next
  fix s :: mtu_state assume "optimal_mtu s = (if \<forall>t \<in> set (probed s). f (t - 28) then d else min_mtu s)"
  then show "optimal_mtu (mtu_probe_step f s) =
       (if \<forall>t \<in> set (probed (mtu_probe_step f s)). f (t - 28) then d
        else min_mtu (mtu_probe_step f s))"
    by (cases "f ((max_mtu s + min_mtu s) div 2 - 28)") (simp_all add: mtu_probe_step_def Let_def)
qed

lemma mtu_search_probe_count:
  "max_mtu st - min_mtu st \<le> 8 * 2 ^ k \<Longrightarrow>
     length (probed (mtu_search f st)) \<le> length (probed st) + k"
proof (induction k arbitrary: st)
  case 0
  then show ?case by (simp add: mtu_search_stop)
next
  case (Suc k)
  show ?case
  proof (cases "max_mtu st - min_mtu st > 8")
    case False
    then show ?thesis by (simp add: mtu_search_stop)
  next
    case True
    have "max_mtu (mtu_probe_step f st) - min_mtu (mtu_probe_step f st) \<le> 8 * 2 ^ k"
      using Suc.prems by (cases "f ((max_mtu st + min_mtu st) div 2 - 28)")
        (simp_all add: mtu_probe_step_def Let_def)
    from Suc.IH[OF this] have "length (probed (mtu_search f (mtu_probe_step f st)))
       \<le> length (probed (mtu_probe_step f st)) + k" .
    moreover have "length (probed (mtu_probe_step f st)) = Suc (length (probed st))"
      by (cases "f ((max_mtu st + min_mtu st) div 2 - 28)")
        (simp_all add: mtu_probe_step_def Let_def)
    ultimately show ?thesis by (simp add: mtu_search_step[OF True])
  qed
qed


lemma mtu_search_init:
  "1200 \<le> optimal_mtu (mtu_search f mtu_init) \<and> optimal_mtu (mtu_search f mtu_init) \<le> 1500
   \<and> max_mtu (mtu_search f mtu_init) - min_mtu (mtu_search f mtu_init) \<le> 8
   \<and> (min_mtu (mtu_search f mtu_init) = 1200 \<or> \<not> f (min_mtu (mtu_search f mtu_init) - 28))
   \<and> (max_mtu (mtu_search f mtu_init) = 1500 \<or> f (max_mtu (mtu_search f mtu_init) - 28))
   \<and> optimal_mtu (mtu_search f mtu_init) =
        (if \<forall>t \<in> set (probed (mtu_search f mtu_init)). f (t - 28) then 1500
         else min_mtu (mtu_search f mtu_init))
   \<and> length (probed (mtu_search f mtu_init)) \<le> 7"
proof -
  have a: "1200 \<le> optimal_mtu (mtu_search f mtu_init) \<and> optimal_mtu (mtu_search f mtu_init) \<le> 1500"
    by (rule mtu_search_bounds) (simp_all add: mtu_init_def)
  have c: "(min_mtu (mtu_search f mtu_init) = 1200 \<or> \<not> f (min_mtu (mtu_search f mtu_init) - 28))
       \<and> (max_mtu (mtu_search f mtu_init) = 1500 \<or> f (max_mtu (mtu_search f mtu_init) - 28))"
    by (rule mtu_search_confirmed) (simp_all add: mtu_init_def)
  have d: "optimal_mtu (mtu_search f mtu_init) =
     (if \<forall>t \<in> set (probed (mtu_search f mtu_init)). f (t - 28) then 1500
      else min_mtu (mtu_search f mtu_init))"
    by (rule mtu_search_optimal) (simp add: mtu_init_def)
  have "length (probed (mtu_search f mtu_init)) \<le> length (probed mtu_init) + 6"
    by (rule mtu_search_probe_count) (simp add: mtu_init_def)
  then have e: "length (probed (mtu_search f mtu_init)) \<le> 7"
    by (simp add: mtu_init_def)
  from a c d e mtu_search_width[of f mtu_init] show ?thesis by blast
qed

lemma mtu_search_below_limit:
  assumes "\<forall>t. limit < t \<longrightarrow> f (t - 28)" "\<exists>t \<in> set (probed (mtu_search f mtu_init)). \<not> f (t - 28)"
    "1200 \<le> limit"
  shows "optimal_mtu (mtu_search f mtu_init) \<le> limit"
proof -
  let ?r = "mtu_search f mtu_init"
  from mtu_search_init[of f] assms(2) have o: "optimal_mtu ?r = min_mtu ?r" by auto
  from mtu_search_init[of f] have "min_mtu ?r = 1200 \<or> \<not> f (min_mtu ?r - 28)" by blast
  then have "min_mtu ?r \<le> limit"
  proof
    assume "min_mtu ?r = 1200" with assms(3) show ?thesis by simp
  next
    assume "\<not> f (min_mtu ?r - 28)"
    with assms(1) have "\<not> limit < min_mtu ?r" by blast
    then show ?thesis by simp
  qed
  with o show ?thesis by simp
qed

lemma synthetic_windows_run:
  "windows_search (synthetic_windows 1400) =
     \<lparr>max_mtu = 1401, min_mtu = 1396, optimal_mtu = 1396,
      probed = [1350, 1425, 1387, 1406, 1396, 1401]\<rparr>"
  by (simp add: windows_search_def mtu_init_def synthetic_windows_def windows_probe_failed_def
        mtu_search.simps mtu_probe_step_def)

lemma synthetic_linux_run:
  "linux_search (synthetic_linux 1400) =
     \<lparr>max_mtu = 1401, min_mtu = 1396, optimal_mtu = 1396,
      probed = [1350, 1425, 1387, 1406, 1396, 1401]\<rparr>"
  by (simp add: linux_search_def mtu_init_def synthetic_linux_def linux_probe_failed_def
        mtu_search.simps mtu_probe_step_def)

lemma unreachable_windows_run:
  "windows_search unreachable_windows =
     \<lparr>max_mtu = 1204, min_mtu = 1200, optimal_mtu = 1500,
      probed = [1350, 1275, 1237, 1218, 1209, 1204]\<rparr>"
  by (simp add: windows_search_def mtu_init_def windows_probe_failed_def mtu_search.simps
        mtu_probe_step_def unreachable_windows_def)

text \<open>
  Claim C2, as the code has it. For every host (every behaviour of the probes) the Windows
  and the Linux search return a value in [1200, 1500], stop with \<open>max_mtu - min_mtu \<le> 8\<close>
  after at most 7 probes, keep \<open>min_mtu\<close> at 1200 or at a size whose probe (of payload
  size - 28) was deliverable and \<open>max_mtu\<close> at 1500 or at a size whose probe failed, and
  return \<open>min_mtu\<close> when some probe was deliverable and the default 1500 when none was.
  When every probe above 1400 fails and some probe is deliverable the result is at most
  1400.
\<close>

theorem find_optimal_mtu_search:
  fixes run_ping :: probe
  shows
  "(let r = windows_search run_ping;
        failed = (\<lambda>t. windows_probe_failed (run_ping (t - 28))) in
      find_windows_optimal_mtu run_ping = optimal_mtu r
    \<and> 1200 \<le> optimal_mtu r \<and> optimal_mtu r \<le> 1500
    \<and> max_mtu r - min_mtu r \<le> 8
    \<and> (min_mtu r = 1200 \<or> \<not> failed (min_mtu r))
    \<and> (max_mtu r = 1500 \<or> failed (max_mtu r))
    \<and> optimal_mtu r = (if \<forall>t \<in> set (probed r). failed t then 1500 else min_mtu r)
    \<and> length (probed r) \<le> 7
    \<and> ((\<forall>t. 1400 < t \<longrightarrow> failed t) \<and> (\<exists>t \<in> set (probed r). \<not> failed t)
         \<longrightarrow> optimal_mtu r \<le> 1400))
   \<and> (let r = linux_search run_ping;
        failed = (\<lambda>t. linux_probe_failed (run_ping (t - 28))) in
      find_linux_optimal_mtu run_ping = optimal_mtu r
    \<and> 1200 \<le> optimal_mtu r \<and> optimal_mtu r \<le> 1500
    \<and> max_mtu r - min_mtu r \<le> 8
    \<and> (min_mtu r = 1200 \<or> \<not> failed (min_mtu r))
    \<and> (max_mtu r = 1500 \<or> failed (max_mtu r))
    \<and> optimal_mtu r = (if \<forall>t \<in> set (probed r). failed t then 1500 else min_mtu r)
    \<and> length (probed r) \<le> 7
    \<and> ((\<forall>t. 1400 < t \<longrightarrow> failed t) \<and> (\<exists>t \<in> set (probed r). \<not> failed t)
         \<longrightarrow> optimal_mtu r \<le> 1400))"
proof -
  let ?fw = "\<lambda>payload. windows_probe_failed (run_ping payload)"
  let ?fl = "\<lambda>payload. linux_probe_failed (run_ping payload)"
  have w: "(\<forall>t. 1400 < t \<longrightarrow> ?fw (t - 28)) \<and> (\<exists>t \<in> set (probed (mtu_search ?fw mtu_init)). \<not> ?fw (t - 28))
         \<longrightarrow> optimal_mtu (mtu_search ?fw mtu_init) \<le> 1400"
    using mtu_search_below_limit[of 1400 ?fw] by simp
  have l: "(\<forall>t. 1400 < t \<longrightarrow> ?fl (t - 28)) \<and> (\<exists>t \<in> set (probed (mtu_search ?fl mtu_init)). \<not> ?fl (t - 28))
         \<longrightarrow> optimal_mtu (mtu_search ?fl mtu_init) \<le> 1400"
    using mtu_search_below_limit[of 1400 ?fl] by simp
  show ?thesis
    unfolding Let_def find_windows_optimal_mtu_def find_linux_optimal_mtu_def
      windows_search_def linux_search_def
    using mtu_search_init[of ?fw] mtu_search_init[of ?fl] w l by blast
qed

theorem find_optimal_mtu_search_witness:
  "\<not> (\<exists>t. 1400 < t \<and> \<not> windows_probe_failed (synthetic_windows 1400 (t - 28)))
   \<and> (\<exists>t \<in> set (probed (windows_search (synthetic_windows 1400))).
         \<not> windows_probe_failed (synthetic_windows 1400 (t - 28)))
   \<and> find_windows_optimal_mtu (synthetic_windows 1400) \<le> 1400
   \<and> find_windows_optimal_mtu (synthetic_windows 1400) = 1396
   \<and> length (probed (windows_search (synthetic_windows 1400))) = 6
   \<and> find_linux_optimal_mtu (synthetic_linux 1400) = 1396
   \<and> length (probed (linux_search (synthetic_linux 1400))) = 6"
proof -
  have h1: "\<forall>t. 1400 < t \<longrightarrow> windows_probe_failed (synthetic_windows 1400 (t - 28))"
    by (simp add: synthetic_windows_def windows_probe_failed_def)
  have h2: "\<exists>t \<in> set (probed (windows_search (synthetic_windows 1400))).
         \<not> windows_probe_failed (synthetic_windows 1400 (t - 28))"
    by (simp add: synthetic_windows_run synthetic_windows_def windows_probe_failed_def)
  from find_optimal_mtu_search[of "synthetic_windows 1400"] h1 h2
  have "find_windows_optimal_mtu (synthetic_windows 1400) \<le> 1400"
    unfolding Let_def by metis
  moreover have "find_windows_optimal_mtu (synthetic_windows 1400) = 1396"
    by (simp add: find_windows_optimal_mtu_def synthetic_windows_run)
  moreover have "find_linux_optimal_mtu (synthetic_linux 1400) = 1396"
    by (simp add: find_linux_optimal_mtu_def synthetic_linux_run)
  ultimately show ?thesis using h1 h2
    by (simp add: synthetic_windows_run synthetic_linux_run)
qed

text \<open>
  The claim says the search returns \<open>low\<close>. For a host that answers no probe at all the
  search ends with \<open>min_mtu = 1200\<close> and returns 1500.
\<close>

theorem find_optimal_mtu_returns_low_counterexample:
  "find_windows_optimal_mtu unreachable_windows = 1500
   \<and> min_mtu (windows_search unreachable_windows) = 1200
   \<and> find_windows_optimal_mtu unreachable_windows \<noteq> min_mtu (windows_search unreachable_windows)"
  by (simp add: find_windows_optimal_mtu_def unreachable_windows_run)

subsection \<open>The apply sequence\<close>

lemma try_step_lists:
  "applied (try_step raises n a b res) = applied res @ [n]"
  "failed (try_step raises n a b res) = failed res @ (if raises n = None then [] else [n])"
  by (simp_all add: try_step_def Let_def split: option.splits)


lemma platform_failed:
  "failed (apply_windows_optimizations raises cfg res) = failed res @
     filter (\<lambda>n. raises n \<noteq> None)
       ((if cfg ''tcp'' \<noteq> None then [''windows_tcp''] else [])
        @ (if cfg ''wifi'' \<noteq> None then [''windows_wifi''] else []))"
  "failed (apply_linux_optimizations raises cfg res) = failed res @
     filter (\<lambda>n. raises n \<noteq> None)
       ((if cfg ''tcp'' \<noteq> None then [''linux_tcp''] else [])
        @ (if cfg ''wifi'' \<noteq> None then [''linux_wifi''] else []))"
  "failed (apply_macos_optimizations raises cfg res) = failed res @
     filter (\<lambda>n. raises n \<noteq> None)
       ((if cfg ''tcp'' \<noteq> None then [''macos_tcp''] else [])
        @ (if cfg ''wifi'' \<noteq> None then [''macos_wifi''] else []))"
  by (simp_all add: apply_windows_optimizations_def apply_linux_optimizations_def
        apply_macos_optimizations_def Let_def try_step_lists)

lemma admin_warning_lists:
  "applied (admin_warning a res) = applied res" "failed (admin_warning a res) = failed res"
  by (simp_all add: admin_warning_def)


lemma apply_platform_failed:
  "failed (apply_platform os raises cfg res) =
     failed res @ filter (\<lambda>n. raises n \<noteq> None) (platform_steps os cfg)"
  by (cases os) (simp_all add: apply_platform_def platform_steps_def platform_failed)


lemma apply_dns_failed:
  "failed (apply_dns raises cfg res) =
     failed res @ filter (\<lambda>n. raises n \<noteq> None) (dns_steps cfg)"
  by (simp add: apply_dns_def dns_steps_def try_step_lists split: option.splits)


lemma apply_optimizations_failed:
  "failed (apply_optimizations adm os raises cfg) =
     filter (\<lambda>n. raises n \<noteq> None) (apply_steps os cfg)"
  by (simp add: apply_optimizations_def Let_def apply_steps_def apply_dns_failed
        apply_platform_failed admin_warning_lists)


text \<open>As the source stands no step raises, and nothing is ever reported as failed.\<close>

lemma apply_optimizations_never_fails:
  "failed (apply_optimizations adm os (\<lambda>name. None) cfg) = []"
  by (simp add: apply_optimizations_failed)





subsection \<open>Metrics for the dashboard\<close>











subsection \<open>The monitor loop\<close>

lemma apply_count_append [simp]: "apply_count (xs @ ys) = apply_count xs + apply_count ys"
  by (simp add: apply_count_def)

lemma apply_count_simps [simp]:
  "apply_count [] = 0"
  "apply_count (ApplyOptimizations # es) = Suc (apply_count es)"
  "apply_count (VisualizerStop # es) = apply_count es"
  "apply_count (VisualizerUpdate # es) = apply_count es"
  "apply_count (Sleep t # es) = apply_count es"
  "apply_count (Run c # es) = apply_count es"
  "apply_count (JoinMonitor t # es) = apply_count es"
  "apply_count (RemoveFile p # es) = apply_count es"
  "apply_count (CopyFile p q # es) = apply_count es"
  by (simp_all add: apply_count_def)

text \<open>The state a pass ends in, whether it raised or not.\<close>

lemma apply_call_events:
  "events (case_sum id id (apply_optimizations_call s b)) = events b @ [ApplyOptimizations]"
  by (simp add: apply_optimizations_call_def Let_def log_events_def refresh_optimization_level_def
        split: option.splits)

lemma apply_call_target:
  "target_signal_strength (case_sum id id (apply_optimizations_call s b)) = target_signal_strength b"
  by (simp add: apply_optimizations_call_def Let_def log_events_def refresh_optimization_level_def
        split: option.splits)

lemma monitor_pass_applies:
  "apply_count (events (case_sum id id (monitor_pass i b))) =
     apply_count (events b) +
       (if \<not> display_raises i \<and> measured_signal i < target_signal_strength b
           \<and> \<not> progress_raises i then 1 else 0)"
proof (cases "apply_optimizations_call (signal_after_optimize i)
    (log_events [VisualizerUpdate]
       (b\<lparr>current_speed := measured_speed i, current_signal := measured_signal i\<rparr>))")
  case (Inl b3)
  with apply_call_events[of "signal_after_optimize i" "log_events [VisualizerUpdate]
       (b\<lparr>current_speed := measured_speed i, current_signal := measured_signal i\<rparr>)"]
  show ?thesis
    by (simp add: monitor_pass_def Let_def log_events_def end_of_iteration_def)
next
  case (Inr b3)
  with apply_call_events[of "signal_after_optimize i" "log_events [VisualizerUpdate]
       (b\<lparr>current_speed := measured_speed i, current_signal := measured_signal i\<rparr>)"]
  show ?thesis
    by (simp add: monitor_pass_def Let_def log_events_def end_of_iteration_def)
qed

lemma monitor_pass_target:
  "target_signal_strength (case_sum id id (monitor_pass i b)) = target_signal_strength b"
proof (cases "apply_optimizations_call (signal_after_optimize i)
    (log_events [VisualizerUpdate]
       (b\<lparr>current_speed := measured_speed i, current_signal := measured_signal i\<rparr>))")
  case (Inl b3)
  with apply_call_target[of "signal_after_optimize i" "log_events [VisualizerUpdate]
       (b\<lparr>current_speed := measured_speed i, current_signal := measured_signal i\<rparr>)"]
  show ?thesis
    by (simp add: monitor_pass_def Let_def log_events_def end_of_iteration_def)
next
  case (Inr b3)
  with apply_call_target[of "signal_after_optimize i" "log_events [VisualizerUpdate]
       (b\<lparr>current_speed := measured_speed i, current_signal := measured_signal i\<rparr>)"]
  show ?thesis
    by (simp add: monitor_pass_def Let_def log_events_def end_of_iteration_def)
qed

lemma monitor_never_unapplies:
  "apply_count (events b) \<le> apply_count (events (monitor_and_optimize b passes))"
proof (induction passes arbitrary: b)
  case Nil
  then show ?case by simp
next
  case (Cons i rest)
  show ?case
  proof (cases "active b")
    case False
    then show ?thesis by (simp add: log_events_def)
  next
    case True
    show ?thesis
    proof (cases "monitor_pass i b")
      case (Inl b')
      with monitor_pass_applies[of i b] True show ?thesis by (simp add: log_events_def)
    next
      case (Inr b')
      with monitor_pass_applies[of i b] have "apply_count (events b) \<le> apply_count (events b')"
        by simp
      also have "\<dots> \<le> apply_count (events (monitor_and_optimize b' rest))" by (rule Cons.IH)
      finally show ?thesis using True Inr by simp
    qed
  qed
qed

lemma monitor_signal_ok_no_apply:
  "(\<forall>i \<in> set passes. target_signal_strength b \<le> measured_signal i) \<Longrightarrow>
     apply_count (events (monitor_and_optimize b passes)) = apply_count (events b)"
proof (induction passes arbitrary: b)
  case Nil
  then show ?case by simp
next
  case (Cons i rest)
  then have ok: "\<not> measured_signal i < target_signal_strength b" by simp
  show ?case
  proof (cases "active b")
    case False
    then show ?thesis by (simp add: log_events_def)
  next
    case True
    show ?thesis
    proof (cases "monitor_pass i b")
      case (Inl b')
      with monitor_pass_applies[of i b] ok True show ?thesis by (simp add: log_events_def)
    next
      case (Inr b')
      with monitor_pass_applies[of i b] ok have c: "apply_count (events b') = apply_count (events b)"
        by simp
      from Inr monitor_pass_target[of i b] have t: "target_signal_strength b' = target_signal_strength b"
        by simp
      from Cons.prems t have "\<forall>i \<in> set rest. target_signal_strength b' \<le> measured_signal i"
        by simp
      from Cons.IH[OF this] c True Inr show ?thesis by simp
    qed
  qed
qed

lemma monitor_weak_signal_applies:
  assumes "active b" "\<not> display_raises i" "\<not> progress_raises i"
    "measured_signal i < target_signal_strength b"
  shows "apply_count (events b) < apply_count (events (monitor_and_optimize b (i # rest)))"
proof (cases "monitor_pass i b")
  case (Inl b')
  with monitor_pass_applies[of i b] assms show ?thesis by (simp add: log_events_def)
next
  case (Inr b')
  with monitor_pass_applies[of i b] assms have "apply_count (events b) < apply_count (events b')"
    by simp
  also have "\<dots> \<le> apply_count (events (monitor_and_optimize b' rest))"
    by (rule monitor_never_unapplies)
  finally show ?thesis using assms(1) Inr by simp
qed

text \<open>
  Claim C9, as the code has it. A pass of the monitor loop runs the apply sequence exactly
  when no visualizer call before it raises and the signal just measured is below the target
  signal strength; the measured speed plays no part. So the first pass of an active loop
  re-applies when its signal is below target, and a loop whose passes all measure a signal
  at or above target never re-applies, whatever the speeds.
\<close>

theorem monitor_reapplies_on_weak_signal:
  "apply_count (events (case_sum id id (monitor_pass i b))) =
     apply_count (events b) +
       (if \<not> display_raises i \<and> measured_signal i < target_signal_strength b
           \<and> \<not> progress_raises i then 1 else 0)
   \<and> (active b \<and> \<not> display_raises i \<and> \<not> progress_raises i
        \<and> measured_signal i < target_signal_strength b \<longrightarrow>
      apply_count (events b) < apply_count (events (monitor_and_optimize b (i # rest))))
   \<and> ((\<forall>j \<in> set passes. target_signal_strength b \<le> measured_signal j) \<longrightarrow>
      apply_count (events (monitor_and_optimize b passes)) = apply_count (events b))"
  using monitor_pass_applies[of i b] monitor_weak_signal_applies[of b i rest]
    monitor_signal_ok_no_apply[of passes b]
  by blast

theorem monitor_reapplies_on_weak_signal_witness:
  "active running_session \<and> \<not> display_raises slow_and_weak \<and> \<not> progress_raises slow_and_weak
   \<and> measured_signal slow_and_weak < target_signal_strength running_session
   \<and> target_signal_strength running_session \<le> measured_signal slow_but_strong
   \<and> apply_count (events running_session)
       < apply_count (events (monitor_and_optimize running_session [slow_and_weak, slow_but_strong]))
   \<and> apply_count (events (monitor_and_optimize running_session [slow_but_strong, slow_but_strong]))
       = apply_count (events running_session)"
  using monitor_reapplies_on_weak_signal[of slow_and_weak running_session "[slow_but_strong]"
      "[slow_but_strong, slow_but_strong]"]
  by (simp add: slow_and_weak_def slow_but_strong_def running_session_def)

text \<open>
  The claim also expects a re-apply when only the speed is below target. With a target of
  20 Mbit/s and 5 Mbit/s measured on a signal of 90, two passes run the apply sequence zero
  times.
\<close>

theorem monitor_ignores_speed_counterexample:
  "active running_session
   \<and> target_speed running_session = 20
   \<and> measured_speed slow_but_strong = 5
   \<and> measured_speed slow_but_strong < target_speed running_session
   \<and> apply_count (events (monitor_and_optimize running_session [slow_but_strong, slow_but_strong])) = 0"
  by (simp add: monitor_pass_def slow_but_strong_def running_session_def Let_def log_events_def
        end_of_iteration_def)

subsection \<open>Stopping and restoring\<close>

lemma default_tcp_params_eq:
  "default_tcp_params = [(''autotuning'', PyStr ''normal''),
     (''congestion_provider'', PyStr ''CTCP''), (''window_size'', PyInt 65535),
     (''max_syn_retransmissions'', PyInt 2), (''ttl'', PyInt 128)]"
  by (simp add: default_tcp_params_def get_windows_tcp_params_def py_lower_def lower_char_def)

lemma restore_events_running:
  "restore_events quiet_env running_session =
     [Run [''netsh'', ''interface'', ''tcp'', ''set'', ''global'', ''autotuninglevel=normal''],
      Run [''netsh'', ''interface'', ''tcp'', ''set'', ''global'', ''congestionprovider=CTCP''],
      Run [''netsh'', ''advfirewall'', ''firewall'', ''delete'', ''rule'', ''name=SignalBoosterRealTime''],
      Run [''netsh'', ''advfirewall'', ''firewall'', ''delete'', ''rule'', ''name=SignalBoosterWeb''],
      Run [''powershell'', ''Set-NetAdapterPowerManagement -Name 'Wi-Fi' -WakeOnMagicPacket Enabled -WakeOnPattern Enabled'']]"
  by (simp add: restore_events_def running_session_def windows_baseline_def default_tcp_params_eq
       restore_windows_def restore_windows_tcp_def restore_windows_qos_def restore_windows_power_def
       quiet_env_def have_interface_def interface_name_def py_truthy_def py_str_def py_quote_def
       cleanup_temp_files_def temp_files_def)

lemma restore_events_frame:
  "os_type b' = os_type b \<Longrightarrow> original_settings b' = original_settings b \<Longrightarrow>
     active_interface b' = active_interface b \<Longrightarrow> restore_events env b' = restore_events env b"
  by (simp only: restore_events_def)

lemma running_session_fields:
  "active running_session" "is_running running_session"
  "monitor_thread running_session = Some True" "events running_session = []"
  "original_settings running_session = windows_baseline"
  by (simp_all add: running_session_def)

lemma stop_boosting_idle: "\<not> active b \<Longrightarrow> \<not> is_running b \<Longrightarrow> stop_boosting env b = b"
  by (simp add: stop_boosting_def)

lemma stop_boosting_flags:
  "\<not> active (stop_boosting env b) \<and> \<not> is_running (stop_boosting env b)"
  by (simp add: stop_boosting_def Let_def log_events_def restore_original_settings_def)

lemma stop_boosting_events:
  "active b \<or> is_running b \<Longrightarrow>
     events (stop_boosting env b) =
       events b @ VisualizerStop # restore_events env b
         @ (if monitor_thread b = Some True then [JoinMonitor 2] else [])"
  using restore_events_frame[of "log_events [VisualizerStop] (b\<lparr>active := False, is_running := False\<rparr>)" b env]
  by (simp add: stop_boosting_def Let_def restore_original_settings_def log_events_def)

lemma stop_boosting_baseline:
  "original_settings (stop_boosting env b) = original_settings b"
  by (simp add: stop_boosting_def Let_def log_events_def restore_original_settings_def)

lemma stop_boosting_twice: "stop_boosting env' (stop_boosting env b) = stop_boosting env b"
  using stop_boosting_flags[of env b] by (simp add: stop_boosting_idle)

lemma monitor_exits_when_inactive:
  "\<not> active b \<Longrightarrow> monitor_and_optimize b (i # rest) = log_events [VisualizerStop] b"
  by simp

text \<open>
  \<open>stop\<close>, the entry point of the GUI, clears the flags and then calls \<open>stop_boosting\<close>,
  which finds both flags cleared and returns at once.
\<close>

lemma stop_is_silent: "stop env b = b\<lparr>active := False, is_running := False\<rparr>"
  by (simp add: stop_def stop_boosting_def)

lemma run_commands_quiet: "(\<forall>c. \<not> raises c) \<Longrightarrow> run_commands raises cs = map Run cs"
  by (induction cs) simp_all

text \<open>
  Claim C6, as the code has it. On a booster that is active or running, \<open>stop_boosting\<close>
  clears both flags, stops the visualizer, runs the whole restore path, and only then joins
  the monitor thread, with a timeout of 2 seconds and only if the thread is alive; so the
  restore never waits for the join. A monitor loop that reaches the top of a pass afterwards
  sees the cleared flag and exits. A second call changes nothing.
\<close>

theorem stop_boosting_signals_restores_then_joins:
  "(active b \<or> is_running b \<longrightarrow>
      \<not> active (stop_boosting env b) \<and> \<not> is_running (stop_boosting env b)
      \<and> events (stop_boosting env b) =
          events b @ VisualizerStop # restore_events env b
            @ (if monitor_thread b = Some True then [JoinMonitor 2] else [])
      \<and> monitor_and_optimize (stop_boosting env b) (i # rest) =
          log_events [VisualizerStop] (stop_boosting env b))
   \<and> stop_boosting env' (stop_boosting env b) = stop_boosting env b"
  using stop_boosting_flags[of env b] stop_boosting_events[of b env]
    monitor_exits_when_inactive[of "stop_boosting env b" i rest] stop_boosting_twice[of env' env b]
  by blast

theorem stop_boosting_signals_restores_then_joins_witness:
  "active running_session
   \<and> monitor_thread running_session = Some True
   \<and> \<not> active (stop_boosting quiet_env running_session)
   \<and> events (stop_boosting quiet_env running_session) =
       VisualizerStop # restore_events quiet_env running_session @ [JoinMonitor 2]
   \<and> events (monitor_and_optimize (stop_boosting quiet_env running_session) [slow_and_weak]) =
       events (stop_boosting quiet_env running_session) @ [VisualizerStop]"
  using stop_boosting_signals_restores_then_joins[of running_session quiet_env slow_and_weak "[]" quiet_env]
  by (simp add: running_session_def log_events_def)

text \<open>
  The claim puts the join before the restore. On the running Windows session every restore
  command is issued before the join.
\<close>

theorem stop_boosting_restores_before_join_counterexample:
  "events (stop_boosting quiet_env running_session) =
     [VisualizerStop,
      Run [''netsh'', ''interface'', ''tcp'', ''set'', ''global'', ''autotuninglevel=normal''],
      Run [''netsh'', ''interface'', ''tcp'', ''set'', ''global'', ''congestionprovider=CTCP''],
      Run [''netsh'', ''advfirewall'', ''firewall'', ''delete'', ''rule'', ''name=SignalBoosterRealTime''],
      Run [''netsh'', ''advfirewall'', ''firewall'', ''delete'', ''rule'', ''name=SignalBoosterWeb''],
      Run [''powershell'', ''Set-NetAdapterPowerManagement -Name 'Wi-Fi' -WakeOnMagicPacket Enabled -WakeOnPattern Enabled''],
      JoinMonitor 2]"
  by (simp add: stop_boosting_events restore_events_running running_session_fields)

lemma count_list_remove_files: "count_list (map RemoveFile xs) (Run c) = 0"
  by (induction xs) simp_all

lemma cleanup_temp_files_no_command: "count_list (cleanup_temp_files env) (Run c) = 0"
  by (simp add: cleanup_temp_files_def count_list_remove_files)

lemma restore_events_windows:
  "os_type b = Windows \<Longrightarrow> map_of (original_settings b) ''windows'' = Some settings \<Longrightarrow>
     restore_events env b = restore_windows env (active_interface b) settings @ cleanup_temp_files env"
  by (simp add: restore_events_def)

lemma restore_events_linux:
  "os_type b = Linux \<Longrightarrow> map_of (original_settings b) ''linux'' = Some settings \<Longrightarrow>
     restore_events env b = restore_linux env (active_interface b) settings @ cleanup_temp_files env"
  by (simp add: restore_events_def)

text \<open>On Linux every captured \<open>sysctl\<close> parameter is written back, in the order captured.\<close>

lemma restore_linux_quiet:
  assumes "\<forall>cmd. \<not> cmd_raises env cmd" "map_of settings ''sysctl_params'' = Some ps"
  shows "restore_linux env iface settings =
     map (\<lambda>(param, v). Run [''sysctl'', ''-w'', param @ ''='' @ py_str v]) ps
     @ (if map_of settings ''dns_settings'' \<noteq> None \<and> path_exists env ''/etc/resolv.conf.bak''
        then [CopyFile ''/etc/resolv.conf.bak'' ''/etc/resolv.conf''] else [])
     @ (if have_interface iface
        then [Run [''tc'', ''qdisc'', ''del'', ''dev'', interface_name iface, ''root'']] else [])
     @ [Run [''iptables'', ''-t'', ''mangle'', ''-F'']]"
  using assms
  by (simp add: restore_linux_def run_commands_quiet comp_def case_prod_unfold)

text \<open>On Windows the captured congestion provider is written back by one command.\<close>

lemma restore_windows_provider_once:
  assumes "\<forall>cmd. \<not> cmd_raises env cmd"
    "map_of settings ''tcp_params'' = Some tcp" "map_of tcp ''congestion_provider'' = Some c"
  shows "count_list (restore_windows env iface settings)
           (Run [''netsh'', ''interface'', ''tcp'', ''set'', ''global'',
                 ''congestionprovider='' @ py_str c]) = 1"
  using assms
  by (simp add: restore_windows_def restore_windows_tcp_def restore_windows_qos_def
        restore_windows_power_def run_commands_quiet split: option.splits)

lemma restore_windows_power_once:
  assumes "\<forall>cmd. \<not> cmd_raises env cmd"
    "map_of settings ''power_settings'' = Some p"
    "map_of p ''power_saving_enabled'' = Some (PyBool True)" "iface \<noteq> []"
  shows "count_list (restore_windows env (Some iface) settings)
           (Run [''powershell'', ''Set-NetAdapterPowerManagement -Name '' @ py_quote iface
                   @ '' -WakeOnMagicPacket Enabled -WakeOnPattern Enabled'']) = 1"
  using assms
  by (simp add: restore_windows_def restore_windows_tcp_def restore_windows_qos_def
        restore_windows_power_def run_commands_quiet have_interface_def interface_name_def
        py_truthy_def split: option.splits)


text \<open>
  Claim C7, as the code has it. When no restore command raises: on Linux the restore path
  issues one \<open>sysctl -w\<close> call for every captured \<open>sysctl\<close> parameter, in the order captured,
  before the commands that undo the DNS, traffic control and firewall changes; on Windows
  a captured congestion provider is passed to exactly one \<open>netsh\<close> call, and power saving
  captured as enabled on a known interface leads to exactly one power management call.
  The baseline is the same after the restore and after \<open>stop_boosting\<close>.
\<close>

theorem restore_replays_captured_settings:
  "(\<forall>cmd. \<not> cmd_raises env cmd) \<longrightarrow>
     (os_type bl = Linux \<and> map_of (original_settings bl) ''linux'' = Some ls
        \<and> map_of ls ''sysctl_params'' = Some ps \<longrightarrow>
      restore_events env bl =
        map (\<lambda>(param, v). Run [''sysctl'', ''-w'', param @ ''='' @ py_str v]) ps
        @ (if map_of ls ''dns_settings'' \<noteq> None \<and> path_exists env ''/etc/resolv.conf.bak''
           then [CopyFile ''/etc/resolv.conf.bak'' ''/etc/resolv.conf''] else [])
        @ (if have_interface (active_interface bl)
           then [Run [''tc'', ''qdisc'', ''del'', ''dev'', interface_name (active_interface bl),
                      ''root'']]
           else [])
        @ [Run [''iptables'', ''-t'', ''mangle'', ''-F'']]
        @ cleanup_temp_files env)
     \<and> (os_type bw = Windows \<and> map_of (original_settings bw) ''windows'' = Some ws
          \<and> map_of ws ''tcp_params'' = Some tcp
          \<and> map_of tcp ''congestion_provider'' = Some c \<longrightarrow>
        count_list (restore_events env bw)
          (Run [''netsh'', ''interface'', ''tcp'', ''set'', ''global'',
                ''congestionprovider='' @ py_str c]) = 1)
     \<and> (os_type bw = Windows \<and> map_of (original_settings bw) ''windows'' = Some ws
          \<and> map_of ws ''power_settings'' = Some p
          \<and> map_of p ''power_saving_enabled'' = Some (PyBool True)
          \<and> active_interface bw = Some iface \<and> iface \<noteq> [] \<longrightarrow>
        count_list (restore_events env bw)
          (Run [''powershell'', ''Set-NetAdapterPowerManagement -Name '' @ py_quote iface
                  @ '' -WakeOnMagicPacket Enabled -WakeOnPattern Enabled'']) = 1)
     \<and> original_settings (restore_original_settings env b) = original_settings b
     \<and> original_settings (stop_boosting env b) = original_settings b"
proof (intro impI conjI)
  assume q: "\<forall>cmd. \<not> cmd_raises env cmd"
  {
    assume h: "os_type bl = Linux \<and> map_of (original_settings bl) ''linux'' = Some ls
        \<and> map_of ls ''sysctl_params'' = Some ps"
    then have "restore_events env bl =
        restore_linux env (active_interface bl) ls @ cleanup_temp_files env"
      by (simp add: restore_events_linux)
    also have "restore_linux env (active_interface bl) ls =
        map (\<lambda>(param, v). Run [''sysctl'', ''-w'', param @ ''='' @ py_str v]) ps
        @ (if map_of ls ''dns_settings'' \<noteq> None \<and> path_exists env ''/etc/resolv.conf.bak''
           then [CopyFile ''/etc/resolv.conf.bak'' ''/etc/resolv.conf''] else [])
        @ (if have_interface (active_interface bl)
           then [Run [''tc'', ''qdisc'', ''del'', ''dev'', interface_name (active_interface bl),
                      ''root'']]
           else [])
        @ [Run [''iptables'', ''-t'', ''mangle'', ''-F'']]"
    proof (rule restore_linux_quiet[OF q])
      from h show "map_of ls ''sysctl_params'' = Some ps" by blast
    qed
    finally show "restore_events env bl =
        map (\<lambda>(param, v). Run [''sysctl'', ''-w'', param @ ''='' @ py_str v]) ps
        @ (if map_of ls ''dns_settings'' \<noteq> None \<and> path_exists env ''/etc/resolv.conf.bak''
           then [CopyFile ''/etc/resolv.conf.bak'' ''/etc/resolv.conf''] else [])
        @ (if have_interface (active_interface bl)
           then [Run [''tc'', ''qdisc'', ''del'', ''dev'', interface_name (active_interface bl),
                      ''root'']]
           else [])
        @ [Run [''iptables'', ''-t'', ''mangle'', ''-F'']]
        @ cleanup_temp_files env" by simp
  }
  {
    assume h: "os_type bw = Windows \<and> map_of (original_settings bw) ''windows'' = Some ws
          \<and> map_of ws ''tcp_params'' = Some tcp
          \<and> map_of tcp ''congestion_provider'' = Some c"
    then have e: "restore_events env bw =
        restore_windows env (active_interface bw) ws @ cleanup_temp_files env"
      by (simp add: restore_events_windows)
    have "count_list (restore_windows env (active_interface bw) ws)
          (Run [''netsh'', ''interface'', ''tcp'', ''set'', ''global'',
                ''congestionprovider='' @ py_str c]) = 1"
    proof (rule restore_windows_provider_once[OF q])
      from h show "map_of ws ''tcp_params'' = Some tcp" by blast
      from h show "map_of tcp ''congestion_provider'' = Some c" by blast
    qed
    then show "count_list (restore_events env bw)
          (Run [''netsh'', ''interface'', ''tcp'', ''set'', ''global'',
                ''congestionprovider='' @ py_str c]) = 1"
      by (simp add: e cleanup_temp_files_no_command)
  }
  {
    assume h: "os_type bw = Windows \<and> map_of (original_settings bw) ''windows'' = Some ws
          \<and> map_of ws ''power_settings'' = Some p
          \<and> map_of p ''power_saving_enabled'' = Some (PyBool True)
          \<and> active_interface bw = Some iface \<and> iface \<noteq> []"
    then have e: "restore_events env bw =
        restore_windows env (Some iface) ws @ cleanup_temp_files env"
      by (simp add: restore_events_windows)
    have "count_list (restore_windows env (Some iface) ws)
          (Run [''powershell'', ''Set-NetAdapterPowerManagement -Name '' @ py_quote iface
                  @ '' -WakeOnMagicPacket Enabled -WakeOnPattern Enabled'']) = 1"
    proof (rule restore_windows_power_once[OF q])
      from h show "map_of ws ''power_settings'' = Some p" by blast
      from h show "map_of p ''power_saving_enabled'' = Some (PyBool True)" by blast
      from h show "iface \<noteq> []" by blast
    qed
    then show "count_list (restore_events env bw)
          (Run [''powershell'', ''Set-NetAdapterPowerManagement -Name '' @ py_quote iface
                  @ '' -WakeOnMagicPacket Enabled -WakeOnPattern Enabled'']) = 1"
      by (simp add: e cleanup_temp_files_no_command)
  }
  show "original_settings (restore_original_settings env b) = original_settings b"
    by (simp add: restore_original_settings_def log_events_def)
  show "original_settings (stop_boosting env b) = original_settings b"
    by (rule stop_boosting_baseline)
qed

lemma linux_session_fields:
  "os_type linux_session = Linux" "active_interface linux_session = Some ''wlan0''"
  "original_settings linux_session = linux_baseline"
  by (simp_all add: linux_session_def running_session_def)

theorem restore_replays_captured_settings_witness:
  "(\<forall>cmd. \<not> cmd_raises quiet_env cmd)
   \<and> os_type linux_session = Linux
   \<and> os_type running_session = Windows
   \<and> map_of default_tcp_params ''congestion_provider'' = Some (PyStr ''CTCP'')
   \<and> active_interface running_session = Some ''Wi-Fi''
   \<and> restore_events quiet_env linux_session =
       [Run [''sysctl'', ''-w'', ''net.ipv4.tcp_congestion_control=cubic''],
        Run [''sysctl'', ''-w'', ''net.core.rmem_max=212992''],
        Run [''sysctl'', ''-w'', ''net.core.somaxconn=4096''],
        Run [''tc'', ''qdisc'', ''del'', ''dev'', ''wlan0'', ''root''],
        Run [''iptables'', ''-t'', ''mangle'', ''-F'']]
   \<and> count_list (restore_events quiet_env running_session)
         (Run [''netsh'', ''interface'', ''tcp'', ''set'', ''global'',
               ''congestionprovider=CTCP'']) = 1
   \<and> count_list (restore_events quiet_env running_session)
         (Run [''powershell'', ''Set-NetAdapterPowerManagement -Name 'Wi-Fi' -WakeOnMagicPacket Enabled -WakeOnPattern Enabled'']) = 1
   \<and> original_settings (stop_boosting quiet_env running_session) = windows_baseline"
  using restore_replays_captured_settings[where env = quiet_env and bl = linux_session
      and ls = "[(''sysctl_params'', [(''net.ipv4.tcp_congestion_control'', PyStr ''cubic''),
                             (''net.core.rmem_max'', PyStr ''212992''),
                             (''net.core.somaxconn'', PyStr ''4096'')]),
        (''dns_settings'', [(''nameservers'', PyList [''192.168.1.1''])])]"
      and ps = "[(''net.ipv4.tcp_congestion_control'', PyStr ''cubic''),
                 (''net.core.rmem_max'', PyStr ''212992''),
                 (''net.core.somaxconn'', PyStr ''4096'')]"
      and bw = running_session
      and ws = "[(''tcp_params'', default_tcp_params),
        (''power_settings'', [(''power_saving_enabled'', PyBool True),
                              (''selective_suspend'', PyBool True)]),
        (''qos_settings'', [(''packet_scheduler_enabled'', PyBool True),
                            (''existing_rules'', PyList [])])]"
      and tcp = default_tcp_params and c = "PyStr ''CTCP''"
      and p = "[(''power_saving_enabled'', PyBool True), (''selective_suspend'', PyBool True)]"
      and iface = "''Wi-Fi''" and b = running_session]
  by (simp add: linux_session_fields linux_baseline_def running_session_fields
        running_session_def windows_baseline_def default_tcp_params_eq quiet_env_def
        py_str_def py_quote_def cleanup_temp_files_def temp_files_def have_interface_def
        interface_name_def)

text \<open>
  The claim has every captured parameter passed to a restore call and the baseline discarded.
  The baseline of the running session holds a window size of 65535, 2 retransmissions and a
  TTL of 128; no command of the stop carries 65535 or 128, and the baseline is still there
  afterwards.
\<close>

theorem restore_keeps_baseline_counterexample:
  "map_of default_tcp_params ''window_size'' = Some (PyInt 65535)
   \<and> map_of default_tcp_params ''max_syn_retransmissions'' = Some (PyInt 2)
   \<and> map_of default_tcp_params ''ttl'' = Some (PyInt 128)
   \<and> filter (\<lambda>e. case e of
                   Run c \<Rightarrow> list_ex (\<lambda>arg. str_in ''65535'' arg \<or> str_in ''128'' arg) c
                 | _ \<Rightarrow> False)
        (events (stop_boosting quiet_env running_session)) = []
   \<and> original_settings (stop_boosting quiet_env running_session) = windows_baseline
   \<and> map_of windows_baseline ''windows'' \<noteq> None"
  by (simp add: stop_boosting_events restore_events_running running_session_fields
        stop_boosting_baseline default_tcp_params_eq windows_baseline_def)

subsection \<open>Diagnostics\<close>

lemma sum_list_bounds:
  fixes xs :: "rat list"
  assumes "\<forall>x \<in> set xs. 0 \<le> x \<and> x \<le> 100"
  shows "0 \<le> sum_list xs \<and> sum_list xs \<le> 100 * of_nat (length xs)"
  using assms by (induction xs) (auto simp: algebra_simps)

lemma mean_bounds:
  assumes "xs \<noteq> []" "\<forall>x \<in> set xs. 0 \<le> x \<and> x \<le> 100"
  shows "0 \<le> mean xs \<and> mean xs \<le> 100"
proof -
  have n: "(0::rat) < of_nat (length xs)" using assms(1) by simp
  from sum_list_bounds[OF assms(2)]
  have s: "0 \<le> sum_list xs" "sum_list xs \<le> 100 * of_nat (length xs)" by simp_all
  have "sum_list xs / of_nat (length xs) \<le> 100"
    using s(2) n by (simp add: pos_divide_le_eq)
  moreover have "0 \<le> sum_list xs / of_nat (length xs)" using s(1) n by simp
  ultimately show ?thesis by (simp add: mean_def)
qed

lemma loss_percent_bounds: "0 \<le> loss_percent x p \<and> loss_percent x p \<le> 100"
  by (simp add: loss_percent_def)

lemma interface_factors_bounds:
  "\<forall>x \<in> set (interface_factors os iface env). 0 \<le> x \<and> x \<le> 100"
  by (cases os)
     (auto simp: interface_factors_def loss_percent_bounds split: option.splits if_splits)

lemma load_factor_bounds:
  fixes y :: rat
  shows "0 \<le> min 100 (max 0 y) * (1 / 2) \<and> min 100 (max 0 y) * (1 / 2) \<le> 100"
  by (auto simp: min_def max_def)

lemma load_factors_cases:
  "load_factors os env = [] \<or> load_factors os env = [50]
   \<or> (\<exists>y. load_factors os env = [min 100 (max 0 y) * (1 / 2)])"
proof (cases "has_getloadavg env")
  case True
  then show ?thesis by (cases "loadavg env") (simp_all add: load_factors_def del: times_divide_eq_right, blast)
next
  case False
  then show ?thesis by (cases "cpu_percent env") (simp_all add: load_factors_def)
qed

lemma load_factors_bounds: "\<forall>x \<in> set (load_factors os env). 0 \<le> x \<and> x \<le> 100"
  using load_factors_cases[of os env] load_factor_bounds by auto

lemma channel_factors_bounds: "\<forall>x \<in> set (channel_factors env). 0 \<le> x \<and> x \<le> 100"
  by (auto simp: channel_factors_def Let_def split: option.splits if_splits)

lemma variation_factors_bounds: "\<forall>x \<in> set (variation_factors env). 0 \<le> x \<and> x \<le> 100"
  by (auto simp: variation_factors_def Let_def split: option.splits if_splits)

lemma band_factors_cases: "band_factors os env = [] \<or> band_factors os env = [30]"
  by (cases "windows_channel env"; simp add: band_factors_def)

lemma band_factors_bounds: "\<forall>x \<in> set (band_factors os env). 0 \<le> x \<and> x \<le> 100"
  using band_factors_cases[of os env] by auto

lemma interference_factors_bounds:
  "\<forall>x \<in> set (interference_factors os env). 0 \<le> x \<and> x \<le> 100"
  using channel_factors_bounds[of env] variation_factors_bounds[of env] band_factors_bounds[of os env]
  by (auto simp: interference_factors_def)

text \<open>The interference value is always within [0, 100], and 20 when there is no factor.\<close>

lemma check_for_interference_bounds:
  "0 \<le> check_for_interference os env \<and> check_for_interference os env \<le> 100"
  using mean_bounds[OF _ interference_factors_bounds[of os env]]
  by (simp add: check_for_interference_def)

text \<open>
  The congestion value is within [0, 100] when the minimum ping reported is not above the
  maximum.
\<close>

lemma latency_factors_measured:
  "latency_factors (measure_latency p) =
     Some (case p of
             None \<Rightarrow> [0, 0]
           | Some (mn, av, mx) \<Rightarrow> [min 100 (mx - mn), min 100 (max 0 ((av - 10) / 190 * 100))])"
  by (simp add: latency_factors_def measure_latency_def split: option.splits prod.splits)

lemma congestion_factors_never_empty:
  "\<exists>a b rest. congestion_factors os iface env = Some (a # b # rest)"
  by (simp add: congestion_factors_def latency_factors_measured split: option.splits prod.splits)

lemma analyze_network_congestion_bounds:
  assumes "\<forall>mn av mx. ping env = Some (mn, av, mx) \<longrightarrow> mn \<le> mx"
  shows "0 \<le> analyze_network_congestion os iface env
         \<and> analyze_network_congestion os iface env \<le> 100"
proof -
  let ?lf = "case ping env of
             None \<Rightarrow> [0, 0]
           | Some (mn, av, mx) \<Rightarrow> [min 100 (mx - mn), min 100 (max 0 ((av - 10) / 190 * 100))]"
  let ?fs = "?lf @ interface_factors os iface env @ load_factors os env"
  have "\<forall>x \<in> set ?lf. 0 \<le> x \<and> x \<le> (100::rat)"
    using assms by (auto split: option.splits prod.splits)
  then have b: "\<forall>x \<in> set ?fs. 0 \<le> x \<and> x \<le> 100"
    using interface_factors_bounds[of os iface env] load_factors_bounds[of os env] by auto
  have ne: "?fs \<noteq> []" by (simp split: option.splits prod.splits)
  have "analyze_network_congestion os iface env = mean ?fs"
    using ne by (simp add: analyze_network_congestion_def congestion_factors_def
        latency_factors_measured)
  with mean_bounds[OF ne b] show ?thesis by simp
qed

text \<open>
  Claim C1. The source's own comment gives 30.0 as the value "if we couldn't measure", but
  the guard on the ping result tests a dictionary that always has its three keys: a failed
  ping contributes a jitter and a latency of 0 to the mean. So the list of factors is never
  empty, and when nothing can be measured the congestion is 0 and not 30. The interference
  analysis does what the claim says: its default is 20 and its value is within [0, 100].
\<close>

theorem analyze_network_congestion_failed_ping:
  "measure_latency (ping nothing_measured) = [(''min'', 0), (''avg'', 0), (''max'', 0)]
   \<and> congestion_factors Windows None nothing_measured = Some [0, 0]
   \<and> analyze_network_congestion Windows None nothing_measured = 0
   \<and> analyze_network_congestion Windows None nothing_measured \<noteq> 30
   \<and> (\<exists>a b rest. congestion_factors os iface env = Some (a # b # rest))
   \<and> interference_factors Linux quiet_air = []
   \<and> check_for_interference Linux quiet_air = 20
   \<and> 0 \<le> check_for_interference os' env' \<and> check_for_interference os' env' \<le> 100"
proof -
  have "congestion_factors Windows None nothing_measured = Some [0, 0]"
    by (simp add: congestion_factors_def latency_factors_measured nothing_measured_def
          interface_factors_def have_interface_def load_factors_def)
  moreover from this have "analyze_network_congestion Windows None nothing_measured = 0"
    by (simp add: analyze_network_congestion_def mean_def)
  moreover have "measure_latency (ping nothing_measured) = [(''min'', 0), (''avg'', 0), (''max'', 0)]"
    by (simp add: measure_latency_def nothing_measured_def)
  moreover have "interference_factors Linux quiet_air = []"
    by (simp add: interference_factors_def channel_factors_def variation_factors_def
          band_factors_def quiet_air_def)
  moreover from this have "check_for_interference Linux quiet_air = 20"
    by (simp add: check_for_interference_def)
  ultimately show ?thesis
    using congestion_factors_never_empty[of os iface env] check_for_interference_bounds[of os' env']
    by simp
qed

text \<open>Two measured examples.\<close>

lemma busy_link_congestion:
  "analyze_network_congestion Linux (Some ''wlan0'') busy_link = 78 / 5"
  by (simp add: analyze_network_congestion_def congestion_factors_def latency_factors_measured
        busy_link_def interface_factors_def have_interface_def load_factors_def loss_percent_def
        mean_def)

lemma crowded_air_interference: "check_for_interference Windows crowded_air = 100 / 3"
  by (simp add: check_for_interference_def interference_factors_def channel_factors_def
        variation_factors_def band_factors_def crowded_air_def mean_def)

subsection \<open>Channel selection\<close>







































end
